theory Spec2Isabelle
  imports Main
begin

section \<open>The schema of the print-shop store\<close>

text \<open>
  The core of the repository is one SQL script: three tables with their constraints, the
  row-level security policies on them, two trigger functions and the policies of the
  storage bucket \<open>print-files\<close>. The embedding keeps SQL's own data: a column is
  nullable unless a NOT NULL constraint says otherwise, so every column of a row is an
  \<open>option\<close> (\<open>None\<close> is NULL) and the constraints are executable checks on a row.
\<close>

type_synonym uuid = string
  \<comment> \<open>a UUID, held as its canonical text (what \<open>::text\<close> gives)\<close>

type_synonym timestamptz = int
  \<comment> \<open>a point in time, in microseconds\<close>

datatype app_role = Role_user | Role_merchant
  \<comment> \<open>\<open>CREATE TYPE public.app_role AS ENUM ('user', 'merchant')\<close>\<close>

record profile =
  p_id :: "uuid option"
  p_email :: "string option"
  p_full_name :: "string option"
  p_role :: "app_role option"
  p_created_at :: "timestamptz option"

record merchant =
  m_id :: "uuid option"
  m_user_id :: "uuid option"
  m_shop_name :: "string option"
  m_description :: "string option"
  m_location :: "string option"
  m_is_active :: "bool option"
  m_created_at :: "timestamptz option"

record print_order =
  po_id :: "uuid option"
  po_user_id :: "uuid option"
  po_merchant_id :: "uuid option"
  po_file_name :: "string option"
  po_file_url :: "string option"
  po_file_size :: "int option"
  po_pages :: "int option"
  po_copies :: "int option"
  po_notes :: "string option"
  po_status :: "string option"
  po_created_at :: "timestamptz option"
  po_updated_at :: "timestamptz option"

text \<open>
  The script reads three columns of a row of \<open>auth.users\<close> (\<open>NEW.id\<close>,
  \<open>NEW.email\<close>, \<open>NEW.raw_user_meta_data\<close>) and two of a row of
  \<open>storage.objects\<close> (\<open>bucket_id\<close>, \<open>name\<close>); both tables belong to the platform.
  A metadata value is the JSON null or a value with the text that \<open>->>\<close> gives for it.
\<close>

datatype jsonb_value = Json_null | Json_text string

record auth_user =
  au_id :: uuid
  au_email :: "string option"
  au_raw_user_meta_data :: "(string \<times> jsonb_value) list option"

record storage_object =
  obj_bucket_id :: "string option"
  obj_name :: "string option"

record db =
  users :: "auth_user list"
  profiles :: "profile list"
  merchants :: "merchant list"
  "print_orders" :: "print_order list"
  objects :: "storage_object list"

datatype error =
  Unique_violation
  | Not_null_violation
  | Check_violation
  | Foreign_key_violation
  | Insufficient_privilege
  | Invalid_text_representation
  | Numeric_value_out_of_range
  | Invalid_escape_sequence

text \<open>
  A column of a VALUES list or of a SET clause: left out (an INSERT then takes the column's
  default, an UPDATE keeps the old value) or supplied, possibly as NULL.
\<close>

datatype 'a arg = Omitted | Supplied "'a option"

fun with_default :: "'a option \<Rightarrow> 'a arg \<Rightarrow> 'a option" where
  "with_default d Omitted = d"
| "with_default d (Supplied v) = v"

text \<open>
  A comparison \<open>a = b\<close> used as a policy qualification: a policy admits a row only when
  its expression is true, so a comparison with NULL admits nothing.
\<close>

fun sql_eq :: "'a option \<Rightarrow> 'a option \<Rightarrow> bool" where
  "sql_eq (Some x) (Some y) = (x = y)"
| "sql_eq _ _ = False"

text \<open>
  Statements run one after the other; a statement that raises leaves the store as it was.
\<close>

fun after :: "db \<Rightarrow> error + db \<Rightarrow> db" where
  "after d (Inl e) = d"
| "after d (Inr d') = d'"

fun map_result :: "('a \<Rightarrow> error + 'b) \<Rightarrow> 'a list \<Rightarrow> error + 'b list" where
  "map_result f [] = Inr []"
| "map_result f (x # xs) =
     (case f x of
        Inl e \<Rightarrow> Inl e
      | Inr y \<Rightarrow> (case map_result f xs of Inl e \<Rightarrow> Inl e | Inr ys \<Rightarrow> Inr (y # ys)))"

section \<open>Constraints of the tables\<close>

definition profiles_not_null :: "profile \<Rightarrow> bool" where
  \<comment> \<open>\<open>id\<close> is the primary key; \<open>email\<close>, \<open>role\<close>, \<open>created_at\<close> are NOT NULL\<close>
  "profiles_not_null p =
     (p_id p \<noteq> None \<and> p_email p \<noteq> None \<and> p_role p \<noteq> None \<and> p_created_at p \<noteq> None)"

definition merchants_not_null :: "merchant \<Rightarrow> bool" where
  "merchants_not_null m =
     (m_id m \<noteq> None \<and> m_user_id m \<noteq> None \<and> m_shop_name m \<noteq> None
      \<and> m_is_active m \<noteq> None \<and> m_created_at m \<noteq> None)"

definition print_orders_not_null :: "print_order \<Rightarrow> bool" where
  "print_orders_not_null po =
     (po_id po \<noteq> None \<and> po_user_id po \<noteq> None \<and> po_merchant_id po \<noteq> None
      \<and> po_file_name po \<noteq> None \<and> po_file_url po \<noteq> None \<and> po_copies po \<noteq> None
      \<and> po_status po \<noteq> None \<and> po_created_at po \<noteq> None \<and> po_updated_at po \<noteq> None)"

definition print_orders_status_check :: "print_order \<Rightarrow> bool" where
  \<comment> \<open>\<open>CHECK (status IN ('pending', 'printing', 'completed', 'cancelled'))\<close>;
      a CHECK is violated only when its expression is false, not when it is NULL\<close>
  "print_orders_status_check po =
     (case po_status po of
        None \<Rightarrow> True
      | Some s \<Rightarrow> s \<in> set [''pending'', ''printing'', ''completed'', ''cancelled''])"

definition status_valid :: "print_order \<Rightarrow> bool" where
  \<comment> \<open>the status of a stored row: not NULL and in the list of the CHECK\<close>
  "status_valid po =
     (po_status po \<in> set (map Some [''pending'', ''printing'', ''completed'', ''cancelled'']))"

definition references_key :: "'a option \<Rightarrow> 'a option list \<Rightarrow> bool" where
  \<comment> \<open>\<open>REFERENCES\<close>: a key that is not NULL is the key of a row of the referenced table\<close>
  "references_key k keys = (k = None \<or> k \<in> set keys)"

definition print_orders_foreign_keys :: "db \<Rightarrow> print_order \<Rightarrow> bool" where
  "print_orders_foreign_keys d po =
     (references_key (po_user_id po) (map p_id (profiles d))
      \<and> references_key (po_merchant_id po) (map m_id (merchants d)))"

definition merchants_foreign_keys :: "db \<Rightarrow> merchant \<Rightarrow> bool" where
  "merchants_foreign_keys d m = references_key (m_user_id m) (map p_id (profiles d))"

section \<open>Row-level security policies\<close>

text \<open>
  Row-level security is enabled on the three tables. Every policy of the script is
  permissive and names no role, so for one command on one table the policies of that
  command are joined by OR, for every requester that is subject to row-level security.
  \<open>auth_uid\<close> is the value of \<open>auth.uid()\<close>: the requester's identity key, NULL for
  a request without an identity.

  A sub-select inside a policy runs as the requester, like the query it belongs to. The
  policies of the table it reads apply to it: the sub-selects on \<open>public.merchants\<close>
  range over the rows that \<open>select_merchants\<close> gives the requester, and the one on
  \<open>public.print_orders\<close> over \<open>select_print_orders\<close>.
\<close>

definition anyone_can_view_active_merchants :: "merchant \<Rightarrow> bool" where
  \<comment> \<open>\<open>FOR SELECT USING (is_active = true)\<close>\<close>
  "anyone_can_view_active_merchants m = sql_eq (m_is_active m) (Some True)"

definition merchant_owners_can_update_their_shop :: "uuid option \<Rightarrow> merchant \<Rightarrow> bool" where
  \<comment> \<open>\<open>FOR UPDATE USING (auth.uid() = user_id)\<close>\<close>
  "merchant_owners_can_update_their_shop auth_uid m = sql_eq auth_uid (m_user_id m)"

definition users_can_create_merchant_profile :: "uuid option \<Rightarrow> merchant \<Rightarrow> bool" where
  \<comment> \<open>\<open>FOR INSERT WITH CHECK (auth.uid() = user_id)\<close>\<close>
  "users_can_create_merchant_profile auth_uid m = sql_eq auth_uid (m_user_id m)"

definition select_merchants :: "uuid option \<Rightarrow> db \<Rightarrow> merchant list" where
  \<comment> \<open>\<open>SELECT * FROM public.merchants\<close>, as the requester sees it\<close>
  "select_merchants auth_uid d = filter anyone_can_view_active_merchants (merchants d)"

definition users_can_view_their_own_orders :: "uuid option \<Rightarrow> print_order \<Rightarrow> bool" where
  \<comment> \<open>\<open>FOR SELECT USING (auth.uid() = user_id)\<close>\<close>
  "users_can_view_their_own_orders auth_uid po = sql_eq auth_uid (po_user_id po)"

definition merchants_can_view_orders_sent_to_them ::
  "uuid option \<Rightarrow> db \<Rightarrow> print_order \<Rightarrow> bool" where
  \<comment> \<open>\<open>FOR SELECT USING (EXISTS (SELECT 1 FROM public.merchants WHERE
      merchants.id = print_orders.merchant_id AND merchants.user_id = auth.uid()))\<close>\<close>
  "merchants_can_view_orders_sent_to_them auth_uid d po =
     list_ex (\<lambda>m. sql_eq (m_id m) (po_merchant_id po) \<and> sql_eq (m_user_id m) auth_uid)
       (select_merchants auth_uid d)"

definition users_can_create_orders :: "uuid option \<Rightarrow> print_order \<Rightarrow> bool" where
  \<comment> \<open>\<open>FOR INSERT WITH CHECK (auth.uid() = user_id)\<close>\<close>
  "users_can_create_orders auth_uid po = sql_eq auth_uid (po_user_id po)"

definition users_can_update_their_own_orders :: "uuid option \<Rightarrow> print_order \<Rightarrow> bool" where
  \<comment> \<open>\<open>FOR UPDATE USING (auth.uid() = user_id)\<close>\<close>
  "users_can_update_their_own_orders auth_uid po = sql_eq auth_uid (po_user_id po)"

definition merchants_can_update_orders_sent_to_them ::
  "uuid option \<Rightarrow> db \<Rightarrow> print_order \<Rightarrow> bool" where
  \<comment> \<open>\<open>FOR UPDATE USING (EXISTS (...))\<close>, the same sub-select as for SELECT\<close>
  "merchants_can_update_orders_sent_to_them auth_uid d po =
     list_ex (\<lambda>m. sql_eq (m_id m) (po_merchant_id po) \<and> sql_eq (m_user_id m) auth_uid)
       (select_merchants auth_uid d)"

definition print_orders_select_policy :: "uuid option \<Rightarrow> db \<Rightarrow> print_order \<Rightarrow> bool" where
  "print_orders_select_policy auth_uid d po =
     (users_can_view_their_own_orders auth_uid po
      \<or> merchants_can_view_orders_sent_to_them auth_uid d po)"

definition print_orders_update_policy :: "uuid option \<Rightarrow> db \<Rightarrow> print_order \<Rightarrow> bool" where
  "print_orders_update_policy auth_uid d po =
     (users_can_update_their_own_orders auth_uid po
      \<or> merchants_can_update_orders_sent_to_them auth_uid d po)"

definition select_print_orders :: "uuid option \<Rightarrow> db \<Rightarrow> print_order list" where
  \<comment> \<open>\<open>SELECT * FROM public.print_orders\<close>, as the requester sees it\<close>
  "select_print_orders auth_uid d =
     filter (print_orders_select_policy auth_uid d) (print_orders d)"

section \<open>INSERT and UPDATE on \<open>print_orders\<close>\<close>

record print_order_values =
  pv_id :: "uuid arg"
  pv_user_id :: "uuid arg"
  pv_merchant_id :: "uuid arg"
  pv_file_name :: "string arg"
  pv_file_url :: "string arg"
  pv_file_size :: "int arg"
  pv_pages :: "int arg"
  pv_copies :: "int arg"
  pv_notes :: "string arg"
  pv_status :: "string arg"
  pv_created_at :: "timestamptz arg"
  pv_updated_at :: "timestamptz arg"

definition int4 :: "int option \<Rightarrow> bool" where
  \<comment> \<open>a value of an \<open>INTEGER\<close> column: NULL or a 32-bit integer\<close>
  "int4 v = (case v of None \<Rightarrow> True | Some n \<Rightarrow> - 2147483648 \<le> n \<and> n \<le> 2147483647)"

fun arg_int4 :: "int arg \<Rightarrow> bool" where
  "arg_int4 Omitted = True"
| "arg_int4 (Supplied v) = int4 v"

definition print_order_values_in_range :: "print_order_values \<Rightarrow> bool" where
  \<comment> \<open>\<open>file_size\<close>, \<open>pages\<close> and \<open>copies\<close> are \<open>INTEGER\<close>\<close>
  "print_order_values_in_range vals =
     (arg_int4 (pv_file_size vals) \<and> arg_int4 (pv_pages vals) \<and> arg_int4 (pv_copies vals))"

definition print_orders_defaults :: "timestamptz \<Rightarrow> uuid \<Rightarrow> print_order" where
  \<comment> \<open>the DEFAULT of every column, with the values of \<open>now()\<close> and
      \<open>gen_random_uuid()\<close>; a column without a DEFAULT defaults to NULL\<close>
  "print_orders_defaults now gen_random_uuid =
     \<lparr>po_id = Some gen_random_uuid, po_user_id = None, po_merchant_id = None,
      po_file_name = None, po_file_url = None, po_file_size = None, po_pages = Some 1,
      po_copies = Some 1, po_notes = None, po_status = Some ''pending'',
      po_created_at = Some now, po_updated_at = Some now\<rparr>"

definition assign_print_order :: "print_order_values \<Rightarrow> print_order \<Rightarrow> print_order" where
  \<comment> \<open>the supplied columns over a row: over the defaults for INSERT, over the old row
      for UPDATE\<close>
  "assign_print_order vals base =
     \<lparr>po_id = with_default (po_id base) (pv_id vals),
      po_user_id = with_default (po_user_id base) (pv_user_id vals),
      po_merchant_id = with_default (po_merchant_id base) (pv_merchant_id vals),
      po_file_name = with_default (po_file_name base) (pv_file_name vals),
      po_file_url = with_default (po_file_url base) (pv_file_url vals),
      po_file_size = with_default (po_file_size base) (pv_file_size vals),
      po_pages = with_default (po_pages base) (pv_pages vals),
      po_copies = with_default (po_copies base) (pv_copies vals),
      po_notes = with_default (po_notes base) (pv_notes vals),
      po_status = with_default (po_status base) (pv_status vals),
      po_created_at = with_default (po_created_at base) (pv_created_at vals),
      po_updated_at = with_default (po_updated_at base) (pv_updated_at vals)\<rparr>"

text \<open>
  \<open>INSERT INTO public.print_orders (...) VALUES (...)\<close>, without RETURNING. The
  statement raises when it converts a value outside the 32-bit range to an \<open>INTEGER\<close>
  column, before it has a row. The new row is then checked in the store's order: the WITH
  CHECK of the INSERT policy, the NOT NULL and CHECK constraints, the primary key, the
  foreign keys.
\<close>

definition insert_print_orders ::
  "uuid option \<Rightarrow> timestamptz \<Rightarrow> uuid \<Rightarrow> print_order_values \<Rightarrow> db \<Rightarrow> error + db" where
  "insert_print_orders auth_uid now gen_random_uuid vals d =
     (let new = assign_print_order vals (print_orders_defaults now gen_random_uuid) in
      if \<not> print_order_values_in_range vals then Inl Numeric_value_out_of_range
      else if \<not> users_can_create_orders auth_uid new then Inl Insufficient_privilege
      else if \<not> print_orders_not_null new then Inl Not_null_violation
      else if \<not> print_orders_status_check new then Inl Check_violation
      else if po_id new \<in> set (map po_id (print_orders d)) then Inl Unique_violation
      else if \<not> print_orders_foreign_keys d new then Inl Foreign_key_violation
      else Inr (d\<lparr>print_orders := print_orders d @ [new]\<rparr>))"

definition update_updated_at_column :: "timestamptz \<Rightarrow> print_order \<Rightarrow> print_order" where
  \<comment> \<open>\<open>NEW.updated_at = now(); RETURN NEW;\<close>\<close>
  "update_updated_at_column now new = new\<lparr>po_updated_at := Some now\<rparr>"

text \<open>
  \<open>UPDATE public.print_orders SET ... [WHERE ...]\<close> with constants in SET, on one row.
  The constants are converted to the types of their columns before any row is looked at,
  and a value outside the 32-bit range for an \<open>INTEGER\<close> column raises there.
  The statement reaches a row that its WHERE clause accepts and that the USING
  expressions of the UPDATE policies admit; a WHERE clause reads the row, so with one the
  SELECT policies apply as well, to the old row and to the new one. A row that is not
  reached stays as it is, without an error. On a row that is reached the trigger
  \<open>update_print_orders_updated_at\<close> runs BEFORE UPDATE, on the row that SET gives; then
  the new row must pass the UPDATE policies again (a policy without WITH CHECK uses its
  USING expression for the new row too) and the constraints of the table.
\<close>

definition update_print_orders_reaches ::
  "uuid option \<Rightarrow> db \<Rightarrow> (print_order \<Rightarrow> bool) option \<Rightarrow> print_order \<Rightarrow> bool" where
  "update_print_orders_reaches auth_uid d wh old =
     ((case wh of None \<Rightarrow> True
               | Some w \<Rightarrow> w old \<and> print_orders_select_policy auth_uid d old)
      \<and> print_orders_update_policy auth_uid d old)"

definition update_print_orders_row ::
  "uuid option \<Rightarrow> timestamptz \<Rightarrow> db \<Rightarrow> (print_order \<Rightarrow> bool) option \<Rightarrow> print_order_values
     \<Rightarrow> print_order \<Rightarrow> error + print_order" where
  "update_print_orders_row auth_uid now d wh vals old =
     (if \<not> print_order_values_in_range vals then Inl Numeric_value_out_of_range
      else if \<not> update_print_orders_reaches auth_uid d wh old then Inr old
      else
        (let new = update_updated_at_column now (assign_print_order vals old) in
         if \<not> print_orders_update_policy auth_uid d new then Inl Insufficient_privilege
         else if wh \<noteq> None \<and> \<not> print_orders_select_policy auth_uid d new
           then Inl Insufficient_privilege
         else if \<not> print_orders_not_null new then Inl Not_null_violation
         else if \<not> print_orders_status_check new then Inl Check_violation
         else Inr new))"

definition update_print_orders ::
  "uuid option \<Rightarrow> timestamptz \<Rightarrow> (print_order \<Rightarrow> bool) option \<Rightarrow> print_order_values \<Rightarrow> db
     \<Rightarrow> error + db" where
  \<comment> \<open>the conversion of the constants, then the rows, then the primary key and the
      foreign keys\<close>
  "update_print_orders auth_uid now wh vals d =
     (if \<not> print_order_values_in_range vals then Inl Numeric_value_out_of_range
      else
        (case map_result (update_print_orders_row auth_uid now d wh vals) (print_orders d) of
           Inl e \<Rightarrow> Inl e
         | Inr rows \<Rightarrow>
             if \<not> distinct (map po_id rows) then Inl Unique_violation
             else if \<not> list_all (print_orders_foreign_keys d) rows
               then Inl Foreign_key_violation
             else Inr (d\<lparr>print_orders := rows\<rparr>)))"

section \<open>UPDATE on \<open>merchants\<close>\<close>

record merchant_values =
  mv_id :: "uuid arg"
  mv_user_id :: "uuid arg"
  mv_shop_name :: "string arg"
  mv_description :: "string arg"
  mv_location :: "string arg"
  mv_is_active :: "bool arg"
  mv_created_at :: "timestamptz arg"

definition assign_merchant :: "merchant_values \<Rightarrow> merchant \<Rightarrow> merchant" where
  "assign_merchant vals base =
     \<lparr>m_id = with_default (m_id base) (mv_id vals),
      m_user_id = with_default (m_user_id base) (mv_user_id vals),
      m_shop_name = with_default (m_shop_name base) (mv_shop_name vals),
      m_description = with_default (m_description base) (mv_description vals),
      m_location = with_default (m_location base) (mv_location vals),
      m_is_active = with_default (m_is_active base) (mv_is_active vals),
      m_created_at = with_default (m_created_at base) (mv_created_at vals)\<rparr>"

text \<open>
  \<open>UPDATE public.merchants SET ... [WHERE ...]\<close>, in the same way; \<open>merchants\<close>
  has no trigger.
\<close>

definition update_merchants_reaches ::
  "uuid option \<Rightarrow> (merchant \<Rightarrow> bool) option \<Rightarrow> merchant \<Rightarrow> bool" where
  "update_merchants_reaches auth_uid wh old =
     ((case wh of None \<Rightarrow> True
               | Some w \<Rightarrow> w old \<and> anyone_can_view_active_merchants old)
      \<and> merchant_owners_can_update_their_shop auth_uid old)"

definition update_merchants_row ::
  "uuid option \<Rightarrow> (merchant \<Rightarrow> bool) option \<Rightarrow> merchant_values \<Rightarrow> merchant
     \<Rightarrow> error + merchant" where
  "update_merchants_row auth_uid wh vals old =
     (if \<not> update_merchants_reaches auth_uid wh old then Inr old
      else
        (let new = assign_merchant vals old in
         if \<not> merchant_owners_can_update_their_shop auth_uid new
           then Inl Insufficient_privilege
         else if wh \<noteq> None \<and> \<not> anyone_can_view_active_merchants new
           then Inl Insufficient_privilege
         else if \<not> merchants_not_null new then Inl Not_null_violation
         else Inr new))"

definition update_merchants ::
  "uuid option \<Rightarrow> (merchant \<Rightarrow> bool) option \<Rightarrow> merchant_values \<Rightarrow> db \<Rightarrow> error + db" where
  \<comment> \<open>after the rows: the primary key, \<open>UNIQUE(user_id)\<close>, the foreign key\<close>
  "update_merchants auth_uid wh vals d =
     (case map_result (update_merchants_row auth_uid wh vals) (merchants d) of
        Inl e \<Rightarrow> Inl e
      | Inr rows \<Rightarrow>
          if \<not> distinct (map m_id rows) \<or> \<not> distinct (map m_user_id rows)
            then Inl Unique_violation
          else if \<not> list_all (merchants_foreign_keys d) rows then Inl Foreign_key_violation
          else Inr (d\<lparr>merchants := rows\<rparr>))"

text \<open>
  \<open>INSERT INTO public.merchants (...) VALUES (...)\<close>, without RETURNING, checked like an
  INSERT on \<open>print_orders\<close>.
\<close>

definition merchants_defaults :: "timestamptz \<Rightarrow> uuid \<Rightarrow> merchant" where
  "merchants_defaults now gen_random_uuid =
     \<lparr>m_id = Some gen_random_uuid, m_user_id = None, m_shop_name = None,
      m_description = None, m_location = None, m_is_active = Some True,
      m_created_at = Some now\<rparr>"

definition insert_merchants ::
  "uuid option \<Rightarrow> timestamptz \<Rightarrow> uuid \<Rightarrow> merchant_values \<Rightarrow> db \<Rightarrow> error + db" where
  "insert_merchants auth_uid now gen_random_uuid vals d =
     (let new = assign_merchant vals (merchants_defaults now gen_random_uuid) in
      if \<not> users_can_create_merchant_profile auth_uid new then Inl Insufficient_privilege
      else if \<not> merchants_not_null new then Inl Not_null_violation
      else if m_id new \<in> set (map m_id (merchants d))
              \<or> m_user_id new \<in> set (map m_user_id (merchants d))
        then Inl Unique_violation
      else if \<not> merchants_foreign_keys d new then Inl Foreign_key_violation
      else Inr (d\<lparr>merchants := merchants d @ [new]\<rparr>))"

section \<open>Identity-to-profile provisioning\<close>

fun jsonb_get_text :: "(string \<times> jsonb_value) list option \<Rightarrow> string \<Rightarrow> string option" where
  \<comment> \<open>\<open>j ->> k\<close>: NULL when \<open>j\<close> is NULL, has no key \<open>k\<close>, or holds the JSON null\<close>
  "jsonb_get_text None k = None"
| "jsonb_get_text (Some kvs) k =
     (case map_of kvs k of
        None \<Rightarrow> None
      | Some Json_null \<Rightarrow> None
      | Some (Json_text s) \<Rightarrow> Some s)"

fun cast_app_role :: "string option \<Rightarrow> error + app_role option" where
  \<comment> \<open>\<open>(...)::app_role\<close>: NULL stays NULL, a label of the enum is its value, any other
      text raises\<close>
  "cast_app_role None = Inr None"
| "cast_app_role (Some s) =
     (if s = ''user'' then Inr (Some Role_user)
      else if s = ''merchant'' then Inr (Some Role_merchant)
      else Inl Invalid_text_representation)"

fun coalesce :: "'a option \<Rightarrow> 'a \<Rightarrow> 'a option" where
  "coalesce None d = Some d"
| "coalesce (Some v) d = Some v"

text \<open>
  The trigger function is SECURITY DEFINER: its INSERT runs as the owner of the table,
  whom the policies of \<open>profiles\<close> do not bind. \<open>created_at\<close> is not in the column
  list and takes its default.
\<close>

definition handle_new_user :: "timestamptz \<Rightarrow> auth_user \<Rightarrow> db \<Rightarrow> error + db" where
  "handle_new_user now new d =
     (case cast_app_role (jsonb_get_text (au_raw_user_meta_data new) ''role'') of
        Inl e \<Rightarrow> Inl e
      | Inr r \<Rightarrow>
          (let row = \<lparr>p_id = Some (au_id new), p_email = au_email new,
                      p_full_name =
                        coalesce (jsonb_get_text (au_raw_user_meta_data new) ''full_name'') [],
                      p_role = coalesce r Role_user, p_created_at = Some now\<rparr> in
           if \<not> profiles_not_null row then Inl Not_null_violation
           else if p_id row \<in> set (map p_id (profiles d)) then Inl Unique_violation
           else if au_id new \<notin> set (map au_id (users d)) then Inl Foreign_key_violation
           else Inr (d\<lparr>profiles := profiles d @ [row]\<rparr>)))"

text \<open>
  The creation of an identity is the platform's INSERT of a row into \<open>auth.users\<close>, whose
  \<open>id\<close> the script references as a key. The trigger \<open>on_auth_user_created\<close> runs
  \<open>handle_new_user\<close> AFTER INSERT, FOR EACH ROW, inside the same statement: what the
  function raises, the statement raises.
\<close>

definition insert_auth_users :: "timestamptz \<Rightarrow> auth_user \<Rightarrow> db \<Rightarrow> error + db" where
  "insert_auth_users now new d =
     (if au_id new \<in> set (map au_id (users d)) then Inl Unique_violation
      else handle_new_user now new (d\<lparr>users := users d @ [new]\<rparr>))"

definition profiles_reference_users :: "db \<Rightarrow> bool" where
  \<comment> \<open>\<open>id UUID PRIMARY KEY REFERENCES auth.users(id)\<close>, as a property of the store\<close>
  "profiles_reference_users d =
     list_all (\<lambda>p. p_id p \<in> set (map (\<lambda>u. Some (au_id u)) (users d))) (profiles d)"

section \<open>The bucket \<open>print-files\<close>\<close>

fun split_slash :: "string \<Rightarrow> string list" where
  "split_slash [] = [[]]"
| "split_slash (c # cs) =
     (if c = CHR ''/'' then [] # split_slash cs
      else (case split_slash cs of [] \<Rightarrow> [[c]] | s # ss \<Rightarrow> (c # s) # ss))"

definition string_to_array :: "string \<Rightarrow> string list" where
  \<comment> \<open>the segments of a name between slashes, \<open>string_to_array(name, '/')\<close>, for
      \<open>foldername\<close> below; the empty string gives the empty array\<close>
  "string_to_array name = (if name = [] then [] else split_slash name)"

definition foldername :: "string \<Rightarrow> string list" where
  \<comment> \<open>Modelled from the spec: \<open>storage.foldername\<close> is a function of the storage platform
      and is not defined in the repository. The spec has an object key as
      \<open><identity_key>/<filename>\<close>, the identity key being its first path segment:
      the folders of a key are its segments between slashes, without the file name.\<close>
  "foldername name = butlast (string_to_array name)"

fun array_first :: "'a list \<Rightarrow> 'a option" where
  \<comment> \<open>\<open>(...)[1]\<close>: NULL on an array without a first element\<close>
  "array_first [] = None"
| "array_first (x # xs) = Some x"

definition first_folder :: "storage_object \<Rightarrow> string option" where
  \<comment> \<open>\<open>(storage.foldername(name))[1]\<close>\<close>
  "first_folder obj =
     (case obj_name obj of None \<Rightarrow> None | Some n \<Rightarrow> array_first (foldername n))"

datatype like_result = Like_true | Like_false | Like_abort

text \<open>
  \<open>text LIKE pattern\<close>, as the store matches it, from left to right: \<open>%\<close> stands
  for any run of characters, \<open>_\<close> for one character, and a backslash takes the next
  character of the pattern literally. A backslash that is the last character of the
  pattern raises when the match gets to it, and only then. After a \<open>%\<close> the wildcards
  that follow are taken first; the rest of the pattern starts with a literal character,
  and the match is tried at every place of the text that has this character. A try that
  runs out of text (\<open>Like_abort\<close>) ends the search, because no later place can match.
  A character is a \<open>char\<close>.
\<close>

function match_text :: "string \<Rightarrow> string \<Rightarrow> error + like_result"
  and after_percent :: "string \<Rightarrow> string \<Rightarrow> error + like_result"
  and scan_text :: "char \<Rightarrow> string \<Rightarrow> string \<Rightarrow> error + like_result" where
  "match_text [] p =
     Inr (if dropWhile (\<lambda>x. x = CHR ''%'') p = [] then Like_true else Like_abort)"
| "match_text (c # t) [] = Inr Like_false"
| "match_text (c # t) (x # ps) =
     (if x = CHR 0x5C then
        (case ps of
           [] \<Rightarrow> Inl Invalid_escape_sequence
         | q # qs \<Rightarrow> if q \<noteq> c then Inr Like_false else match_text t qs)
      else if x = CHR ''%'' then after_percent (c # t) ps
      else if x = CHR ''_'' then match_text t ps
      else if x \<noteq> c then Inr Like_false
      else match_text t ps)"
| "after_percent t [] = Inr Like_true"
| "after_percent t (y # ys) =
     (if y = CHR ''%'' then after_percent t ys
      else if y = CHR ''_'' then
        (case t of [] \<Rightarrow> Inr Like_abort | c # t' \<Rightarrow> after_percent t' ys)
      else if y = CHR 0x5C then
        (case ys of
           [] \<Rightarrow> Inl Invalid_escape_sequence
         | z # zs \<Rightarrow> scan_text z t (y # ys))
      else scan_text y t (y # ys))"
| "scan_text firstpat [] p = Inr Like_abort"
| "scan_text firstpat (c # t) p =
     (if c = firstpat then
        (case match_text (c # t) p of
           Inl e \<Rightarrow> Inl e
         | Inr Like_false \<Rightarrow> scan_text firstpat t p
         | Inr matched \<Rightarrow> Inr matched)
      else scan_text firstpat t p)"
  by pat_completeness auto
termination
  by (relation "measure (\<lambda>x. case x of
          Inl (t, p) \<Rightarrow> 3 * (length t + length p)
        | Inr (Inl (t, p)) \<Rightarrow> 3 * (length t + length p) + 2
        | Inr (Inr (f, t, p)) \<Rightarrow> 3 * (length t + length p) + 1)") auto

definition sql_like :: "string \<Rightarrow> string \<Rightarrow> error + bool" where
  "sql_like s p =
     (case match_text s p of Inl e \<Rightarrow> Inl e | Inr matched \<Rightarrow> Inr (matched = Like_true))"

definition file_url_like_name :: "print_order \<Rightarrow> storage_object \<Rightarrow> error + bool" where
  \<comment> \<open>\<open>po.file_url LIKE '%' || storage.objects.name\<close>; not true when either is NULL\<close>
  "file_url_like_name po obj =
     (case (po_file_url po, obj_name obj) of
        (Some url, Some n) \<Rightarrow> sql_like url (CHR ''%'' # n)
      | _ \<Rightarrow> Inr False)"

definition users_can_upload_their_own_files :: "uuid option \<Rightarrow> storage_object \<Rightarrow> bool" where
  \<comment> \<open>\<open>FOR INSERT WITH CHECK (bucket_id = 'print-files' AND
      auth.uid()::text = (storage.foldername(name))[1])\<close>\<close>
  "users_can_upload_their_own_files auth_uid obj =
     (sql_eq (obj_bucket_id obj) (Some ''print-files'') \<and> sql_eq auth_uid (first_folder obj))"

definition users_can_view_their_own_files :: "uuid option \<Rightarrow> storage_object \<Rightarrow> bool" where
  \<comment> \<open>\<open>FOR SELECT USING (...)\<close>, the same expression\<close>
  "users_can_view_their_own_files auth_uid obj =
     (sql_eq (obj_bucket_id obj) (Some ''print-files'') \<and> sql_eq auth_uid (first_folder obj))"

text \<open>
  The second SELECT policy can raise, through its LIKE. The store is free in the order in
  which it evaluates the parts of a qualification; the model takes them as the script has
  them. The test on \<open>bucket_id\<close> comes first. The sub-select then evaluates the LIKE on
  every Print Order that the requester can read, and raises when one of them raises.
\<close>

definition merchants_can_view_files_in_their_orders ::
  "uuid option \<Rightarrow> db \<Rightarrow> storage_object \<Rightarrow> error + bool" where
  \<comment> \<open>\<open>FOR SELECT USING (bucket_id = 'print-files' AND EXISTS (SELECT 1
      FROM public.print_orders po JOIN public.merchants m ON po.merchant_id = m.id
      WHERE m.user_id = auth.uid() AND po.file_url LIKE '%' || storage.objects.name))\<close>\<close>
  "merchants_can_view_files_in_their_orders auth_uid d obj =
     (if \<not> sql_eq (obj_bucket_id obj) (Some ''print-files'') then Inr False
      else if list_ex (\<lambda>po. isl (file_url_like_name po obj)) (select_print_orders auth_uid d)
        then Inl Invalid_escape_sequence
      else Inr (list_ex (\<lambda>po.
        list_ex (\<lambda>m. sql_eq (po_merchant_id po) (m_id m) \<and> sql_eq (m_user_id m) auth_uid
                     \<and> file_url_like_name po obj = Inr True)
          (select_merchants auth_uid d))
        (select_print_orders auth_uid d)))"

text \<open>
  The two SELECT policies are joined by OR, in the order of the script: an object that the
  first policy admits is admitted, and the second is evaluated for the others.
\<close>

definition objects_select_policy ::
  "uuid option \<Rightarrow> db \<Rightarrow> storage_object \<Rightarrow> error + bool" where
  "objects_select_policy auth_uid d obj =
     (if users_can_view_their_own_files auth_uid obj then Inr True
      else merchants_can_view_files_in_their_orders auth_uid d obj)"

text \<open>
  A read of the bucket: of every object (\<open>SELECT * FROM storage.objects\<close>) or of the
  object with one key (\<open>... WHERE bucket_id = b AND name = n\<close>, as a download does). The
  test on the key goes before the policies, which are evaluated on the rows with that key
  only. The read raises when a policy raises on one of its rows.
\<close>

definition key_selects :: "(string \<times> string) option \<Rightarrow> storage_object \<Rightarrow> bool" where
  "key_selects key obj =
     (case key of
        None \<Rightarrow> True
      | Some (b, n) \<Rightarrow> obj_bucket_id obj = Some b \<and> obj_name obj = Some n)"

definition select_objects ::
  "uuid option \<Rightarrow> (string \<times> string) option \<Rightarrow> db \<Rightarrow> error + storage_object list" where
  "select_objects auth_uid key d =
     (let rows = filter (key_selects key) (objects d) in
      if list_ex (\<lambda>obj. isl (objects_select_policy auth_uid d obj)) rows
        then Inl Invalid_escape_sequence
      else Inr (filter (\<lambda>obj. objects_select_policy auth_uid d obj = Inr True) rows))"

definition insert_objects :: "uuid option \<Rightarrow> storage_object \<Rightarrow> db \<Rightarrow> error + db" where
  \<comment> \<open>an upload, as the INSERT on \<open>storage.objects\<close> that the script's policy guards\<close>
  "insert_objects auth_uid obj d =
     (if \<not> users_can_upload_their_own_files auth_uid obj then Inl Insufficient_privilege
      else Inr (d\<lparr>objects := objects d @ [obj]\<rparr>))"

section \<open>The rules as the specification words them\<close>

text \<open>
  The specification's rule for reading and updating a Print Order, and its rule for a
  merchant reading an Uploaded File, quantify over the Merchant and Print Order rows of the
  store as they are. They are written down here as the specification has them, to be set
  against the policies above.
\<close>

definition spec_order_rule :: "uuid option \<Rightarrow> db \<Rightarrow> print_order \<Rightarrow> bool" where
  \<comment> \<open>actor.key == row.customer_key OR exists Merchant m where
      m.id == row.merchant_key AND m.owner_key == actor.key\<close>
  "spec_order_rule actor d po =
     (sql_eq actor (po_user_id po)
      \<or> list_ex (\<lambda>m. sql_eq (m_id m) (po_merchant_id po) \<and> sql_eq (m_user_id m) actor)
           (merchants d))"

definition spec_merchant_file_rule :: "uuid option \<Rightarrow> db \<Rightarrow> storage_object \<Rightarrow> bool" where
  \<comment> \<open>bucket == 'print-files' AND exists PrintOrder po, Merchant m where
      po.merchant_key == m.id AND m.owner_key == actor.key AND
      po.file_url references object.key\<close>
  "spec_merchant_file_rule actor d obj =
     (sql_eq (obj_bucket_id obj) (Some ''print-files'') \<and>
      list_ex (\<lambda>po.
        list_ex (\<lambda>m. sql_eq (po_merchant_id po) (m_id m) \<and> sql_eq (m_user_id m) actor
                     \<and> file_url_like_name po obj = Inr True)
          (merchants d))
        (print_orders d))"

section \<open>A store to run the statements on\<close>

text \<open>
  A customer \<open>u1\<close>, a bystander \<open>u2\<close>, the owner \<open>m1\<close> of the active shop \<open>s1\<close>
  and the owner \<open>m2\<close> of the shop \<open>s2\<close>, which is not active. \<open>u1\<close> has sent one
  order to each shop.
\<close>

definition example_user :: "uuid \<Rightarrow> auth_user" where
  "example_user k = \<lparr>au_id = k, au_email = Some (k @ ''@x.edu''), au_raw_user_meta_data = None\<rparr>"

definition example_profile :: "uuid \<Rightarrow> app_role \<Rightarrow> profile" where
  "example_profile k r =
     \<lparr>p_id = Some k, p_email = Some (k @ ''@x.edu''), p_full_name = Some [],
      p_role = Some r, p_created_at = Some 1\<rparr>"

definition example_merchant :: "uuid \<Rightarrow> uuid \<Rightarrow> bool \<Rightarrow> merchant" where
  "example_merchant k owner active =
     \<lparr>m_id = Some k, m_user_id = Some owner, m_shop_name = Some ''Campus Prints'',
      m_description = None, m_location = None, m_is_active = Some active,
      m_created_at = Some 2\<rparr>"

definition example_order :: "uuid \<Rightarrow> uuid \<Rightarrow> uuid \<Rightarrow> string \<Rightarrow> print_order" where
  "example_order k customer shop url =
     \<lparr>po_id = Some k, po_user_id = Some customer, po_merchant_id = Some shop,
      po_file_name = Some ''doc.pdf'', po_file_url = Some url, po_file_size = None,
      po_pages = Some 1, po_copies = Some 1, po_notes = None, po_status = Some ''pending'',
      po_created_at = Some 3, po_updated_at = Some 3\<rparr>"

definition example_object :: "string \<Rightarrow> storage_object" where
  "example_object n = \<lparr>obj_bucket_id = Some ''print-files'', obj_name = Some n\<rparr>"

definition example_db :: db where
  "example_db =
     \<lparr>users = [example_user ''u1'', example_user ''u2'', example_user ''m1'',
               example_user ''m2''],
      profiles = [example_profile ''u1'' Role_user, example_profile ''u2'' Role_user,
                  example_profile ''m1'' Role_merchant, example_profile ''m2'' Role_merchant],
      merchants = [example_merchant ''s1'' ''m1'' True, example_merchant ''s2'' ''m2'' False],
      print_orders = [example_order ''o1'' ''u1'' ''s1'' ''files/u1/a.pdf'',
                      example_order ''o2'' ''u1'' ''s2'' ''files/u1/b.pdf''],
      objects = [example_object ''u1/a.pdf'', example_object ''u1/b.pdf'',
                 example_object ''m1/own.pdf'']\<rparr>"

definition no_values :: print_order_values where
  \<comment> \<open>a VALUES list or SET clause that names no column\<close>
  "no_values =
     \<lparr>pv_id = Omitted, pv_user_id = Omitted, pv_merchant_id = Omitted, pv_file_name = Omitted,
      pv_file_url = Omitted, pv_file_size = Omitted, pv_pages = Omitted, pv_copies = Omitted,
      pv_notes = Omitted, pv_status = Omitted, pv_created_at = Omitted,
      pv_updated_at = Omitted\<rparr>"

definition no_merchant_values :: merchant_values where
  "no_merchant_values =
     \<lparr>mv_id = Omitted, mv_user_id = Omitted, mv_shop_name = Omitted, mv_description = Omitted,
      mv_location = Omitted, mv_is_active = Omitted, mv_created_at = Omitted\<rparr>"

definition order_columns ::
  "uuid \<Rightarrow> uuid \<Rightarrow> string \<Rightarrow> string \<Rightarrow> int arg \<Rightarrow> int arg \<Rightarrow> string arg \<Rightarrow> string arg
     \<Rightarrow> print_order_values" where
  \<comment> \<open>a VALUES list with the four columns that have no default and are NOT NULL, and with
      \<open>file_size\<close>, \<open>copies\<close>, \<open>notes\<close> and \<open>status\<close> as the caller has them;
      the dashboard's INSERT names all of these but \<open>status\<close>\<close>
  "order_columns customer shop file_name file_url file_size copies notes status =
     no_values\<lparr>pv_user_id := Supplied (Some customer), pv_merchant_id := Supplied (Some shop),
       pv_file_name := Supplied (Some file_name), pv_file_url := Supplied (Some file_url),
       pv_file_size := file_size, pv_copies := copies, pv_notes := notes,
       pv_status := status\<rparr>"

definition order_values :: "uuid \<Rightarrow> uuid \<Rightarrow> print_order_values" where
  \<comment> \<open>the columns without a default, as the dashboard supplies them\<close>
  "order_values customer shop =
     no_values\<lparr>pv_user_id := Supplied (Some customer), pv_merchant_id := Supplied (Some shop),
       pv_file_name := Supplied (Some ''doc.pdf''),
       pv_file_url := Supplied (Some ''files/u1/c.pdf'')\<rparr>"

definition example_db_late :: db where
  \<comment> \<open>\<open>u1\<close> sends a third order at time 10 and supplies an \<open>updated_at\<close> of 500\<close>
  "example_db_late =
     after example_db
       (insert_print_orders (Some ''u1'') 10 ''o3''
          ((order_values ''u1'' ''s1'')\<lparr>pv_updated_at := Supplied (Some 500)\<rparr>) example_db)"

section \<open>General facts\<close>

lemma map_result_Inr:
  "map_result f xs = Inr ys \<Longrightarrow> list_all2 (\<lambda>x y. f x = Inr y) xs ys"
  by (induction xs arbitrary: ys) (auto split: sum.splits)

lemma map_result_Inr_conv:
  "list_all2 (\<lambda>x y. f x = Inr y) xs ys \<Longrightarrow> map_result f xs = Inr ys"
  by (induction rule: list_all2_induct) auto

lemma sql_eq_iff: "sql_eq a b \<longleftrightarrow> a \<noteq> None \<and> a = b"
  by (cases a; cases b) auto

lemmas example_defs = example_db_def example_user_def example_profile_def example_merchant_def
  example_order_def example_object_def example_db_late_def no_values_def no_merchant_values_def order_values_def

lemmas policy_defs = select_merchants_def anyone_can_view_active_merchants_def
  merchant_owners_can_update_their_shop_def print_orders_select_policy_def
  print_orders_update_policy_def users_can_view_their_own_orders_def
  users_can_update_their_own_orders_def merchants_can_view_orders_sent_to_them_def
  merchants_can_update_orders_sent_to_them_def users_can_create_orders_def
  select_print_orders_def

lemmas print_orders_statement_defs = insert_print_orders_def update_print_orders_def
  update_print_orders_row_def update_print_orders_reaches_def update_updated_at_column_def
  assign_print_order_def print_orders_defaults_def print_order_values_in_range_def int4_def
  print_orders_not_null_def
  print_orders_status_check_def print_orders_foreign_keys_def references_key_def

section \<open>Reading merchants\<close>

text \<open>
  C8. A Merchant row that is not active is not returned to an actor who is not its owner,
  and an active Merchant row is returned to every actor, whoever owns it.
\<close>

theorem merchants_read_active_only:
  assumes "m \<in> set (merchants d)"
  shows "(m_is_active m = Some False \<and> \<not> sql_eq auth_uid (m_user_id m)
            \<longrightarrow> m \<notin> set (select_merchants auth_uid d))
       \<and> (m_is_active m = Some True \<longrightarrow> m \<in> set (select_merchants auth_uid d))"
  using assms by (simp add: select_merchants_def anyone_can_view_active_merchants_def)

theorem merchants_read_active_only_witness:
  "example_merchant ''s2'' ''m2'' False \<in> set (merchants example_db)
   \<and> example_merchant ''s2'' ''m2'' False \<notin> set (select_merchants (Some ''u2'') example_db)
   \<and> example_merchant ''s1'' ''m1'' True \<in> set (select_merchants (Some ''u2'') example_db)"
proof -
  have h1: "example_merchant ''s2'' ''m2'' False \<in> set (merchants example_db)"
    and h2: "example_merchant ''s1'' ''m1'' True \<in> set (merchants example_db)"
    by (simp_all add: example_db_def)
  show ?thesis
    using h1 merchants_read_active_only [OF h1, of "Some ''u2''"]
      merchants_read_active_only [OF h2, of "Some ''u2''"]
    by (simp add: example_merchant_def)
qed

text \<open>
  C10. A Merchant row that is not active is returned to no actor, its owner included: the
  only SELECT policy of \<open>merchants\<close> tests \<open>is_active = true\<close> and nothing else.
\<close>

theorem merchants_inactive_hidden_from_all:
  assumes "m_is_active m = Some False"
  shows "m \<notin> set (select_merchants auth_uid d) \<and> m \<notin> set (select_merchants (m_user_id m) d)"
  using assms by (simp add: select_merchants_def anyone_can_view_active_merchants_def)

theorem merchants_inactive_hidden_from_all_witness:
  "m_is_active (example_merchant ''s2'' ''m2'' False) = Some False
   \<and> example_merchant ''s2'' ''m2'' False \<in> set (merchants example_db)
   \<and> example_merchant ''s2'' ''m2'' False \<notin> set (select_merchants (Some ''m2'') example_db)"
proof -
  have h: "m_is_active (example_merchant ''s2'' ''m2'' False) = Some False"
    by (simp add: example_merchant_def)
  show ?thesis
    using h merchants_inactive_hidden_from_all [OF h, of "Some ''m2''" example_db]
    by (simp add: example_db_def)
qed

section \<open>Updating merchants\<close>

lemma update_merchants_rows:
  assumes "update_merchants auth_uid wh vals d = Inr d'"
  shows "list_all2 (\<lambda>old new. update_merchants_row auth_uid wh vals old = Inr new)
           (merchants d) (merchants d')"
  using assms
  by (auto simp: update_merchants_def split: sum.splits if_splits dest: map_result_Inr)

lemma update_merchants_row_user_id:
  assumes "update_merchants_row auth_uid wh vals old = Inr new"
  shows "m_user_id new = m_user_id old"
  using assms
  by (auto simp: update_merchants_row_def update_merchants_reaches_def
      merchant_owners_can_update_their_shop_def
      sql_eq_iff Let_def split: if_splits)

text \<open>
  C9. No UPDATE on \<open>merchants\<close> that the policies let through changes the
  \<open>user_id\<close> of a row: the old row passes the UPDATE policy only for its owner, and
  the new row has to pass the same expression for the same requester.
\<close>

theorem merchants_user_id_immutable:
  assumes "update_merchants auth_uid wh vals d = Inr d'"
  shows "map m_user_id (merchants d') = map m_user_id (merchants d)"
proof -
  have "list_all2 (\<lambda>old new. m_user_id new = m_user_id old) (merchants d) (merchants d')"
    using update_merchants_rows [OF assms]
    by (rule list_all2_mono) (rule update_merchants_row_user_id)
  then show ?thesis
    by (induction rule: list_all2_induct) auto
qed

theorem merchants_user_id_immutable_witness:
  "update_merchants (Some ''m1'') (Some (\<lambda>r. m_id r = Some ''s1''))
      (no_merchant_values\<lparr>mv_shop_name := Supplied (Some ''Copy Corner'')\<rparr>) example_db
     = Inr (example_db\<lparr>merchants :=
          [(example_merchant ''s1'' ''m1'' True)\<lparr>m_shop_name := Some ''Copy Corner''\<rparr>,
           example_merchant ''s2'' ''m2'' False]\<rparr>)
   \<and> map m_user_id (merchants (example_db\<lparr>merchants :=
          [(example_merchant ''s1'' ''m1'' True)\<lparr>m_shop_name := Some ''Copy Corner''\<rparr>,
           example_merchant ''s2'' ''m2'' False]\<rparr>)) = map m_user_id (merchants example_db)"
proof -
  have h: "update_merchants (Some ''m1'') (Some (\<lambda>r. m_id r = Some ''s1''))
      (no_merchant_values\<lparr>mv_shop_name := Supplied (Some ''Copy Corner'')\<rparr>) example_db
     = Inr (example_db\<lparr>merchants :=
          [(example_merchant ''s1'' ''m1'' True)\<lparr>m_shop_name := Some ''Copy Corner''\<rparr>,
           example_merchant ''s2'' ''m2'' False]\<rparr>)"
    by (simp add: update_merchants_def update_merchants_row_def update_merchants_reaches_def example_db_def
        example_merchant_def example_profile_def no_merchant_values_def assign_merchant_def
        anyone_can_view_active_merchants_def merchant_owners_can_update_their_shop_def
        merchants_not_null_def merchants_foreign_keys_def references_key_def)
  show ?thesis using h merchants_user_id_immutable [OF h] by simp
qed

text \<open>The owner's own attempt to hand the shop to another identity is refused.\<close>

lemma merchants_user_id_change_refused:
  "update_merchants (Some ''m1'') (Some (\<lambda>r. m_id r = Some ''s1''))
      (no_merchant_values\<lparr>mv_user_id := Supplied (Some ''u2'')\<rparr>) example_db
     = Inl Insufficient_privilege"
  by (simp add: update_merchants_def update_merchants_row_def update_merchants_reaches_def example_db_def
        example_merchant_def example_profile_def no_merchant_values_def assign_merchant_def
        anyone_can_view_active_merchants_def merchant_owners_can_update_their_shop_def
        merchants_not_null_def merchants_foreign_keys_def references_key_def)

text \<open>
  The store of the examples can come about through the policies themselves: an identity
  may create its shop with \<open>is_active = false\<close>, and a customer may send an order to
  a shop that is not active.
\<close>

lemma inactive_shop_can_be_created:
  "insert_merchants (Some ''u2'') 2 ''s3''
      (no_merchant_values\<lparr>mv_user_id := Supplied (Some ''u2''),
         mv_shop_name := Supplied (Some ''Campus Prints''),
         mv_is_active := Supplied (Some False)\<rparr>) example_db
     = Inr (example_db\<lparr>merchants := merchants example_db @ [example_merchant ''s3'' ''u2'' False]\<rparr>)"
  by (simp add: insert_merchants_def merchants_defaults_def assign_merchant_def
      users_can_create_merchant_profile_def merchants_not_null_def merchants_foreign_keys_def
      references_key_def example_defs)

lemma order_to_inactive_shop_can_be_created:
  "insert_print_orders (Some ''u1'') 3 ''o4'' (order_values ''u1'' ''s2'') example_db
     = Inr (example_db\<lparr>print_orders := print_orders example_db @
          [example_order ''o4'' ''u1'' ''s2'' ''files/u1/c.pdf'']\<rparr>)"
  by (simp add: example_defs policy_defs print_orders_statement_defs)

section \<open>Reading and updating print orders\<close>

lemma merchants_sub_select:
  "list_ex (\<lambda>m. sql_eq (m_id m) k \<and> sql_eq (m_user_id m) auth_uid) (select_merchants auth_uid d)
   \<longleftrightarrow> (\<exists>m\<in>set (merchants d). m_is_active m = Some True \<and> sql_eq (m_id m) k
          \<and> sql_eq (m_user_id m) auth_uid)"
  by (auto simp: list_ex_iff select_merchants_def anyone_can_view_active_merchants_def sql_eq_iff)

lemma print_orders_policies:
  "print_orders_select_policy auth_uid d po \<longleftrightarrow>
     sql_eq auth_uid (po_user_id po)
     \<or> (\<exists>m\<in>set (merchants d). m_is_active m = Some True \<and> sql_eq (m_id m) (po_merchant_id po)
          \<and> sql_eq (m_user_id m) auth_uid)"
  "print_orders_update_policy auth_uid d po \<longleftrightarrow> print_orders_select_policy auth_uid d po"
  by (simp_all add: print_orders_select_policy_def print_orders_update_policy_def
      users_can_view_their_own_orders_def users_can_update_their_own_orders_def
      merchants_can_view_orders_sent_to_them_def merchants_can_update_orders_sent_to_them_def
      merchants_sub_select)

lemma print_orders_policy_keys:
  assumes "po_user_id a = po_user_id b" and "po_merchant_id a = po_merchant_id b"
  shows "print_orders_select_policy auth_uid d a \<longleftrightarrow> print_orders_select_policy auth_uid d b"
  using assms by (simp add: print_orders_policies(1))

lemma spec_order_rule_iff:
  "spec_order_rule actor d po \<longleftrightarrow>
     sql_eq actor (po_user_id po)
     \<or> (\<exists>m\<in>set (merchants d). sql_eq (m_id m) (po_merchant_id po) \<and> sql_eq (m_user_id m) actor)"
  by (simp add: spec_order_rule_def list_ex_iff)

text \<open>
  What the policies of \<open>print_orders\<close> do for the customer, for the owner of an active
  shop and for a bystander: a read returns the row to the first two and an UPDATE of theirs
  reaches it; an actor who is neither the customer nor the owner of a Merchant with the
  order's merchant key gets no row, and an UPDATE by that actor changes nothing.
\<close>

lemma print_orders_parties:
  "(po \<in> set (print_orders d)
      \<and> (sql_eq auth_uid (po_user_id po)
         \<or> (\<exists>m\<in>set (merchants d). m_is_active m = Some True
               \<and> sql_eq (m_id m) (po_merchant_id po) \<and> sql_eq (m_user_id m) auth_uid))
     \<longrightarrow> po \<in> set (select_print_orders auth_uid d)
         \<and> (\<forall>w. update_print_orders_reaches auth_uid d (Some w) po \<longleftrightarrow> w po)
         \<and> update_print_orders_reaches auth_uid d None po)
   \<and> (\<not> spec_order_rule auth_uid d po
     \<longrightarrow> po \<notin> set (select_print_orders auth_uid d)
         \<and> \<not> update_print_orders_reaches auth_uid d wh po
         \<and> (\<forall>new. update_print_orders_row auth_uid now d wh vals po = Inr new \<longrightarrow> new = po))"
proof (intro conjI impI allI)
  assume a: "po \<in> set (print_orders d)
      \<and> (sql_eq auth_uid (po_user_id po)
         \<or> (\<exists>m\<in>set (merchants d). m_is_active m = Some True
               \<and> sql_eq (m_id m) (po_merchant_id po) \<and> sql_eq (m_user_id m) auth_uid))"
  then have p: "print_orders_select_policy auth_uid d po"
    by (simp add: print_orders_policies(1))
  show "po \<in> set (select_print_orders auth_uid d)"
    using a p by (simp add: select_print_orders_def)
  show "update_print_orders_reaches auth_uid d (Some w) po \<longleftrightarrow> w po" for w
    using p by (simp add: update_print_orders_reaches_def print_orders_policies(2))
  show "update_print_orders_reaches auth_uid d None po"
    using p by (simp add: update_print_orders_reaches_def print_orders_policies(2))
next
  assume "\<not> spec_order_rule auth_uid d po"
  then have n: "\<not> print_orders_select_policy auth_uid d po"
    unfolding spec_order_rule_iff print_orders_policies(1) by blast
  show "po \<notin> set (select_print_orders auth_uid d)"
    using n by (simp add: select_print_orders_def)
  show r: "\<not> update_print_orders_reaches auth_uid d wh po"
    using n by (simp add: update_print_orders_reaches_def print_orders_policies(2))
  fix new
  assume "update_print_orders_row auth_uid now d wh vals po = Inr new"
  then show "new = po"
    using r by (simp add: update_print_orders_row_def split: if_splits)
qed

text \<open>
  C1. The specification lets every owner of the referenced Merchant read and update the
  order, and the names of the two policies say the same: merchants can view, and update,
  orders sent to them. Their sub-select names no \<open>is_active\<close>. It sees only the
  Merchant rows that the requester can read, though, and \<open>merchants\<close> has no SELECT
  policy for the owner: the owner \<open>m2\<close> of the shop \<open>s2\<close>, which is not active,
  satisfies the rule for the order \<open>o2\<close> sent to \<open>s2\<close>, gets no row from a read, and
  an UPDATE of the order by \<open>m2\<close> changes nothing.
\<close>

theorem print_orders_inactive_shop_owner_denied:
  "example_order ''o2'' ''u1'' ''s2'' ''files/u1/b.pdf'' \<in> set (print_orders example_db)
   \<and> spec_order_rule (Some ''m2'') example_db (example_order ''o2'' ''u1'' ''s2'' ''files/u1/b.pdf'')
   \<and> example_order ''o2'' ''u1'' ''s2'' ''files/u1/b.pdf''
        \<notin> set (select_print_orders (Some ''m2'') example_db)
   \<and> update_print_orders (Some ''m2'') 20 (Some (\<lambda>r. po_id r = Some ''o2''))
        (no_values\<lparr>pv_status := Supplied (Some ''printing'')\<rparr>) example_db = Inr example_db"
  by (simp add: example_defs policy_defs print_orders_statement_defs spec_order_rule_def)

section \<open>The statements on \<open>print_orders\<close>, row by row\<close>

lemma update_print_orders_rows:
  assumes "update_print_orders auth_uid now wh vals d = Inr d'"
  shows "list_all2 (\<lambda>old new. update_print_orders_row auth_uid now d wh vals old = Inr new)
           (print_orders d) (print_orders d')"
  using assms
  by (auto simp: update_print_orders_def split: sum.splits if_splits dest: map_result_Inr)

lemma insert_print_orders_Inr:
  assumes "insert_print_orders auth_uid now g vals d = Inr d'"
  shows "d' = d\<lparr>print_orders :=
            print_orders d @ [assign_print_order vals (print_orders_defaults now g)]\<rparr>"
    and "users_can_create_orders auth_uid (assign_print_order vals (print_orders_defaults now g))"
    and "print_orders_not_null (assign_print_order vals (print_orders_defaults now g))"
    and "print_orders_status_check (assign_print_order vals (print_orders_defaults now g))"
    and "print_order_values_in_range vals"
  using assms by (auto simp: insert_print_orders_def Let_def split: if_splits)

text \<open>
  An INSERT by the customer that names the columns without a default, for a new key, an
  existing profile and an existing shop, is accepted, and the columns it leaves out have
  their defaults in the stored row.
\<close>

lemma insert_order_columns:
  assumes "arg_int4 fs" and "arg_int4 cp" and "cp \<noteq> Supplied None"
    and "st = Omitted \<or> (\<exists>s\<in>set [''pending'', ''printing'', ''completed'', ''cancelled''].
           st = Supplied (Some s))"
    and "Some g \<notin> set (map po_id (print_orders d))"
    and "Some u \<in> set (map p_id (profiles d))"
    and "Some mk \<in> set (map m_id (merchants d))"
  shows "insert_print_orders (Some u) now g (order_columns u mk fn fu fs cp nt st) d
     = Inr (d\<lparr>print_orders := print_orders d @
         [\<lparr>po_id = Some g, po_user_id = Some u, po_merchant_id = Some mk,
           po_file_name = Some fn, po_file_url = Some fu,
           po_file_size = with_default None fs, po_pages = Some 1,
           po_copies = with_default (Some 1) cp, po_notes = with_default None nt,
           po_status = with_default (Some ''pending'') st,
           po_created_at = Some now, po_updated_at = Some now\<rparr>]\<rparr>)"
proof -
  have cp: "with_default (Some 1) cp \<noteq> None"
    using assms(3) by (cases cp) auto
  obtain s where st: "with_default (Some ''pending'') st = Some s"
    "s \<in> set [''pending'', ''printing'', ''completed'', ''cancelled'']"
    using assms(4) by auto
  obtain c where c: "with_default (Some 1) cp = Some c"
    using cp by auto
  show ?thesis
    using assms(1,2,5,6,7) st
    unfolding insert_print_orders_def order_columns_def no_values_def
      assign_print_order_def print_orders_defaults_def print_order_values_in_range_def
      users_can_create_orders_def print_orders_not_null_def print_orders_status_check_def
      print_orders_foreign_keys_def references_key_def
    by (simp add: c)
qed

section \<open>The copy count\<close>

text \<open>
  C2, as the specification has it, lets the store reject an order with \<open>copies = 0\<close>.
  The column is \<open>copies INTEGER NOT NULL DEFAULT 1\<close>, with no CHECK: the customer
  \<open>u1\<close> sends an order with a copy count of 0 and the store keeps it.
\<close>

theorem print_orders_zero_copies_accepted:
  "insert_print_orders (Some ''u1'') 10 ''o3''
      ((order_values ''u1'' ''s1'')\<lparr>pv_copies := Supplied (Some 0)\<rparr>) example_db
     = Inr (example_db\<lparr>print_orders := print_orders example_db @
          [(example_order ''o3'' ''u1'' ''s1'' ''files/u1/c.pdf'')
             \<lparr>po_copies := Some 0, po_created_at := Some 10, po_updated_at := Some 10\<rparr>]\<rparr>)"
  by (simp add: example_defs policy_defs print_orders_statement_defs)

lemma insert_print_orders_copies_any:
  assumes "int4 (Some n)" and "int4 (Some k)"
  shows "isl (insert_print_orders auth_uid now g (vals\<lparr>pv_copies := Supplied (Some n)\<rparr>) d)
   \<longleftrightarrow> isl (insert_print_orders auth_uid now g (vals\<lparr>pv_copies := Supplied (Some k)\<rparr>) d)"
  using assms
  by (simp add: insert_print_orders_def Let_def assign_print_order_def
      print_order_values_in_range_def
      users_can_create_orders_def print_orders_not_null_def print_orders_status_check_def
      print_orders_foreign_keys_def)

lemma insert_print_orders_copies_omitted:
  assumes "pv_copies vals = Omitted"
  shows "insert_print_orders auth_uid now g vals d
     = insert_print_orders auth_uid now g (vals\<lparr>pv_copies := Supplied (Some 1)\<rparr>) d"
  using assms
  by (simp add: insert_print_orders_def Let_def assign_print_order_def
      print_orders_defaults_def print_order_values_in_range_def int4_def)

text \<open>
  C2, amended. The copy count of a new Print Order is 1 when the INSERT supplies none: the
  customer's INSERT without a count is accepted and stores \<open>copies = 1\<close>, and every
  INSERT that leaves the count out does what the same INSERT with a count of 1 does. An
  INSERT that supplies NULL for the count is rejected. The store has no lower bound of 1:
  with any count of the 32-bit range, 0 and the negative ones included, an INSERT is
  accepted exactly when it is accepted with a count of 1; a count outside the 32-bit range
  is rejected as out of range.
\<close>

theorem print_orders_copies_default:
  "(arg_int4 fs \<and> Some g \<notin> set (map po_id (print_orders d))
      \<and> Some u \<in> set (map p_id (profiles d)) \<and> Some mk \<in> set (map m_id (merchants d))
     \<longrightarrow> insert_print_orders (Some u) now g (order_columns u mk fn fu fs Omitted nt Omitted) d
          = Inr (d\<lparr>print_orders := print_orders d @
              [\<lparr>po_id = Some g, po_user_id = Some u, po_merchant_id = Some mk,
                po_file_name = Some fn, po_file_url = Some fu,
                po_file_size = with_default None fs, po_pages = Some 1,
                po_copies = Some 1, po_notes = with_default None nt,
                po_status = Some ''pending'',
                po_created_at = Some now, po_updated_at = Some now\<rparr>]\<rparr>))
   \<and> (pv_copies vals = Omitted
     \<longrightarrow> insert_print_orders auth_uid now g vals d
          = insert_print_orders auth_uid now g (vals\<lparr>pv_copies := Supplied (Some 1)\<rparr>) d)
   \<and> (pv_copies vals = Supplied None \<longrightarrow> isl (insert_print_orders auth_uid now g vals d))
   \<and> (- 2147483648 \<le> n \<and> n \<le> 2147483647
     \<longrightarrow> (isl (insert_print_orders auth_uid now g (vals\<lparr>pv_copies := Supplied (Some n)\<rparr>) d)
          \<longleftrightarrow> isl (insert_print_orders auth_uid now g
                    (vals\<lparr>pv_copies := Supplied (Some 1)\<rparr>) d)))
   \<and> (n < - 2147483648 \<or> 2147483647 < n
     \<longrightarrow> insert_print_orders auth_uid now g (vals\<lparr>pv_copies := Supplied (Some n)\<rparr>) d
          = Inl Numeric_value_out_of_range)"
proof (intro conjI impI)
  assume "arg_int4 fs \<and> Some g \<notin> set (map po_id (print_orders d))
      \<and> Some u \<in> set (map p_id (profiles d)) \<and> Some mk \<in> set (map m_id (merchants d))"
  then show "insert_print_orders (Some u) now g (order_columns u mk fn fu fs Omitted nt Omitted) d
          = Inr (d\<lparr>print_orders := print_orders d @
              [\<lparr>po_id = Some g, po_user_id = Some u, po_merchant_id = Some mk,
                po_file_name = Some fn, po_file_url = Some fu,
                po_file_size = with_default None fs, po_pages = Some 1,
                po_copies = Some 1, po_notes = with_default None nt,
                po_status = Some ''pending'',
                po_created_at = Some now, po_updated_at = Some now\<rparr>]\<rparr>)"
    using insert_order_columns [of fs Omitted Omitted g d u mk now fn fu nt] by simp
next
  assume "pv_copies vals = Omitted"
  then show "insert_print_orders auth_uid now g vals d
          = insert_print_orders auth_uid now g (vals\<lparr>pv_copies := Supplied (Some 1)\<rparr>) d"
    by (rule insert_print_orders_copies_omitted)
next
  assume "pv_copies vals = Supplied None"
  then have "\<not> print_orders_not_null (assign_print_order vals (print_orders_defaults now g))"
    by (simp add: print_orders_not_null_def assign_print_order_def)
  then show "isl (insert_print_orders auth_uid now g vals d)"
    by (simp add: insert_print_orders_def Let_def)
next
  assume "- 2147483648 \<le> n \<and> n \<le> 2147483647"
  then show "isl (insert_print_orders auth_uid now g (vals\<lparr>pv_copies := Supplied (Some n)\<rparr>) d)
      \<longleftrightarrow> isl (insert_print_orders auth_uid now g (vals\<lparr>pv_copies := Supplied (Some 1)\<rparr>) d)"
    by (intro insert_print_orders_copies_any) (simp_all add: int4_def)
next
  assume "n < - 2147483648 \<or> 2147483647 < n"
  then show "insert_print_orders auth_uid now g (vals\<lparr>pv_copies := Supplied (Some n)\<rparr>) d
          = Inl Numeric_value_out_of_range"
    by (auto simp: insert_print_orders_def Let_def print_order_values_in_range_def int4_def)
qed

theorem print_orders_copies_default_witness:
  "insert_print_orders (Some ''u1'') 10 ''o3''
      (order_columns ''u1'' ''s1'' ''doc.pdf'' ''files/u1/c.pdf'' (Supplied (Some 2048)) Omitted
         (Supplied None) Omitted) example_db
     = Inr (example_db\<lparr>print_orders := print_orders example_db @
         [\<lparr>po_id = Some ''o3'', po_user_id = Some ''u1'', po_merchant_id = Some ''s1'',
           po_file_name = Some ''doc.pdf'', po_file_url = Some ''files/u1/c.pdf'',
           po_file_size = Some 2048, po_pages = Some 1, po_copies = Some 1, po_notes = None,
           po_status = Some ''pending'', po_created_at = Some 10,
           po_updated_at = Some 10\<rparr>]\<rparr>)
   \<and> isl (insert_print_orders (Some ''u1'') 10 ''o3''
          ((order_values ''u1'' ''s1'')\<lparr>pv_copies := Supplied None\<rparr>) example_db)
   \<and> \<not> isl (insert_print_orders (Some ''u1'') 10 ''o3''
          ((order_values ''u1'' ''s1'')\<lparr>pv_copies := Supplied (Some (- 3))\<rparr>) example_db)
   \<and> insert_print_orders (Some ''u1'') 10 ''o3''
          ((order_values ''u1'' ''s1'')\<lparr>pv_copies := Supplied (Some (- 2147483649))\<rparr>) example_db
        = Inl Numeric_value_out_of_range"
proof -
  have one: "\<not> isl (insert_print_orders (Some ''u1'') 10 ''o3''
          ((order_values ''u1'' ''s1'')\<lparr>pv_copies := Supplied (Some 1)\<rparr>) example_db)"
    by (simp add: example_defs policy_defs print_orders_statement_defs)
  have store: "arg_int4 (Supplied (Some 2048))"
    "Some ''o3'' \<notin> set (map po_id (print_orders example_db))"
    "Some ''u1'' \<in> set (map p_id (profiles example_db))"
    "Some ''s1'' \<in> set (map m_id (merchants example_db))"
    by (simp_all add: example_defs int4_def)
  show ?thesis
    using print_orders_copies_default
        [of "Supplied (Some 2048)" "''o3''" example_db "''u1''" "''s1''" 10 "''doc.pdf''"
          "''files/u1/c.pdf''" "Supplied None"
          "(order_values ''u1'' ''s1'')\<lparr>pv_copies := Supplied None\<rparr>" "Some ''u1''" "- 3"]
      print_orders_copies_default
        [of "Supplied (Some 2048)" "''o3''" example_db "''u1''" "''s1''" 10 "''doc.pdf''"
          "''files/u1/c.pdf''" "Supplied None"
          "order_values ''u1'' ''s1''" "Some ''u1''" "- 2147483649"]
      one store
    by simp
qed

section \<open>The status\<close>

lemma status_valid_iff:
  "status_valid po \<longleftrightarrow> po_status po \<noteq> None \<and> print_orders_status_check po"
  by (cases "po_status po") (auto simp: status_valid_def print_orders_status_check_def)

lemma update_print_orders_row_status:
  assumes "update_print_orders_row auth_uid now d wh vals old = Inr new"
  shows "new = old \<or> status_valid new"
  using assms
  by (auto simp: update_print_orders_row_def Let_def status_valid_iff print_orders_not_null_def
      split: if_splits)

lemma update_print_orders_row_bad_status:
  assumes "update_print_orders_row auth_uid now d wh vals old = Inr new"
    and "pv_status vals = Supplied v"
    and "v \<notin> set (map Some [''pending'', ''printing'', ''completed'', ''cancelled''])"
  shows "new = old"
proof (rule ccontr)
  assume "new \<noteq> old"
  then have new: "new = update_updated_at_column now (assign_print_order vals old)"
    and ok: "print_orders_not_null new" "print_orders_status_check new"
    using assms(1) by (auto simp: update_print_orders_row_def Let_def split: if_splits)
  have "po_status new = v"
    by (simp add: new update_updated_at_column_def assign_print_order_def assms(2))
  then have "status_valid new \<longleftrightarrow> False"
    using assms(3) by (simp add: status_valid_def)
  then show False
    using ok by (simp add: status_valid_iff print_orders_not_null_def)
qed

text \<open>
  C6. An INSERT or UPDATE that supplies a status outside pending, printing, completed,
  cancelled (NULL included) stores nothing: the INSERT raises, and the UPDATE raises or
  reaches no row and leaves the store as it was. An order created without a status has
  the status pending: the customer's INSERT without a status is accepted and stores
  \<open>status = 'pending'\<close>, and every INSERT that leaves the status out does what the
  same INSERT with the status pending does. So when every stored order has one of the
  four statuses, it is so again after every INSERT and every UPDATE.
\<close>

theorem print_orders_status_constraint:
  "(pv_status vals = Supplied v
      \<and> v \<notin> set (map Some [''pending'', ''printing'', ''completed'', ''cancelled''])
     \<longrightarrow> isl (insert_print_orders auth_uid now g vals d)
         \<and> (\<forall>d'. update_print_orders auth_uid now wh vals d = Inr d' \<longrightarrow> d' = d))
   \<and> (pv_status vals = Omitted \<and> insert_print_orders auth_uid now g vals d = Inr d'
     \<longrightarrow> print_orders d' \<noteq> [] \<and> butlast (print_orders d') = print_orders d
         \<and> po_status (last (print_orders d')) = Some ''pending'')
   \<and> (list_all status_valid (print_orders d)
      \<and> insert_print_orders auth_uid now g vals d = Inr d'
     \<longrightarrow> list_all status_valid (print_orders d'))
   \<and> (list_all status_valid (print_orders d)
      \<and> update_print_orders auth_uid now wh vals d = Inr d'
     \<longrightarrow> list_all status_valid (print_orders d'))
   \<and> (pv_status vals = Omitted
     \<longrightarrow> insert_print_orders auth_uid now g vals d
          = insert_print_orders auth_uid now g
              (vals\<lparr>pv_status := Supplied (Some ''pending'')\<rparr>) d)
   \<and> (arg_int4 fs \<and> arg_int4 cp \<and> cp \<noteq> Supplied None
      \<and> Some g \<notin> set (map po_id (print_orders d))
      \<and> Some u \<in> set (map p_id (profiles d)) \<and> Some mk \<in> set (map m_id (merchants d))
     \<longrightarrow> insert_print_orders (Some u) now g (order_columns u mk fn fu fs cp nt Omitted) d
          = Inr (d\<lparr>print_orders := print_orders d @
              [\<lparr>po_id = Some g, po_user_id = Some u, po_merchant_id = Some mk,
                po_file_name = Some fn, po_file_url = Some fu,
                po_file_size = with_default None fs, po_pages = Some 1,
                po_copies = with_default (Some 1) cp, po_notes = with_default None nt,
                po_status = Some ''pending'',
                po_created_at = Some now, po_updated_at = Some now\<rparr>]\<rparr>))"
proof (intro conjI impI allI)
  assume bad: "pv_status vals = Supplied v
      \<and> v \<notin> set (map Some [''pending'', ''printing'', ''completed'', ''cancelled''])"
  let ?new = "assign_print_order vals (print_orders_defaults now g)"
  have "po_status ?new = v"
    using bad by (simp add: assign_print_order_def)
  then have "\<not> status_valid ?new"
    using bad by (simp add: status_valid_def)
  then have "\<not> (print_orders_not_null ?new \<and> print_orders_status_check ?new)"
    by (auto simp: status_valid_iff print_orders_not_null_def)
  then show "isl (insert_print_orders auth_uid now g vals d)"
    by (auto simp: insert_print_orders_def Let_def)
  fix d'
  assume upd: "update_print_orders auth_uid now wh vals d = Inr d'"
  have "list_all2 (\<lambda>old new. new = old) (print_orders d) (print_orders d')"
    using update_print_orders_rows [OF upd] bad
    by (auto elim!: list_all2_mono dest: update_print_orders_row_bad_status)
  then have "print_orders d' = print_orders d"
    by (induction rule: list_all2_induct) simp_all
  moreover have "d' = d\<lparr>print_orders := print_orders d'\<rparr>"
    using upd by (auto simp: update_print_orders_def split: sum.splits if_splits)
  ultimately show "d' = d" by simp
next
  assume h: "pv_status vals = Omitted \<and> insert_print_orders auth_uid now g vals d = Inr d'"
  then have "print_orders d' =
      print_orders d @ [assign_print_order vals (print_orders_defaults now g)]"
    using insert_print_orders_Inr(1) [of auth_uid now g vals d d'] by simp
  moreover have "po_status (assign_print_order vals (print_orders_defaults now g))
      = Some ''pending''"
    using h by (simp add: assign_print_order_def print_orders_defaults_def)
  ultimately show "print_orders d' \<noteq> []" "butlast (print_orders d') = print_orders d"
    "po_status (last (print_orders d')) = Some ''pending''"
    by simp_all
next
  assume h: "list_all status_valid (print_orders d)
      \<and> insert_print_orders auth_uid now g vals d = Inr d'"
  then show "list_all status_valid (print_orders d')"
    using insert_print_orders_Inr [of auth_uid now g vals d d']
    by (simp add: status_valid_iff print_orders_not_null_def)
next
  assume h: "list_all status_valid (print_orders d)
      \<and> update_print_orders auth_uid now wh vals d = Inr d'"
  then have "list_all2 (\<lambda>old new. new = old \<or> status_valid new) (print_orders d) (print_orders d')"
    using update_print_orders_rows [of auth_uid now wh vals d d']
    by (auto elim!: list_all2_mono dest: update_print_orders_row_status)
  then show "list_all status_valid (print_orders d')"
    using h by (auto simp: list_all2_conv_all_nth list_all_length)
next
  assume "pv_status vals = Omitted"
  then show "insert_print_orders auth_uid now g vals d
          = insert_print_orders auth_uid now g
              (vals\<lparr>pv_status := Supplied (Some ''pending'')\<rparr>) d"
    by (simp add: insert_print_orders_def Let_def assign_print_order_def
        print_orders_defaults_def print_order_values_in_range_def)
next
  assume "arg_int4 fs \<and> arg_int4 cp \<and> cp \<noteq> Supplied None
      \<and> Some g \<notin> set (map po_id (print_orders d))
      \<and> Some u \<in> set (map p_id (profiles d)) \<and> Some mk \<in> set (map m_id (merchants d))"
  then show "insert_print_orders (Some u) now g (order_columns u mk fn fu fs cp nt Omitted) d
          = Inr (d\<lparr>print_orders := print_orders d @
              [\<lparr>po_id = Some g, po_user_id = Some u, po_merchant_id = Some mk,
                po_file_name = Some fn, po_file_url = Some fu,
                po_file_size = with_default None fs, po_pages = Some 1,
                po_copies = with_default (Some 1) cp, po_notes = with_default None nt,
                po_status = Some ''pending'',
                po_created_at = Some now, po_updated_at = Some now\<rparr>]\<rparr>)"
    using insert_order_columns [of fs cp Omitted g d u mk now fn fu nt] by simp
qed

theorem print_orders_status_constraint_witness:
  "insert_print_orders (Some ''u1'') 10 ''o3''
      (order_columns ''u1'' ''s1'' ''doc.pdf'' ''files/u1/c.pdf'' (Supplied (Some 2048))
         (Supplied (Some 2)) Omitted Omitted) example_db
     = Inr (example_db\<lparr>print_orders := print_orders example_db @
         [\<lparr>po_id = Some ''o3'', po_user_id = Some ''u1'', po_merchant_id = Some ''s1'',
           po_file_name = Some ''doc.pdf'', po_file_url = Some ''files/u1/c.pdf'',
           po_file_size = Some 2048, po_pages = Some 1, po_copies = Some 2, po_notes = None,
           po_status = Some ''pending'', po_created_at = Some 10,
           po_updated_at = Some 10\<rparr>]\<rparr>)
   \<and> isl (insert_print_orders (Some ''u1'') 10 ''o3''
          ((order_values ''u1'' ''s1'')\<lparr>pv_status := Supplied (Some ''shipped'')\<rparr>) example_db)
   \<and> update_print_orders (Some ''m1'') 20 (Some (\<lambda>r. po_id r = Some ''o1''))
        (no_values\<lparr>pv_status := Supplied (Some ''shipped'')\<rparr>) example_db = Inl Check_violation
   \<and> update_print_orders (Some ''m1'') 20 (Some (\<lambda>r. po_id r = Some ''o1''))
        (no_values\<lparr>pv_status := Supplied (Some ''completed'')\<rparr>) example_db
      = Inr (example_db\<lparr>print_orders :=
          [(example_order ''o1'' ''u1'' ''s1'' ''files/u1/a.pdf'')
             \<lparr>po_status := Some ''completed'', po_updated_at := Some 20\<rparr>,
           example_order ''o2'' ''u1'' ''s2'' ''files/u1/b.pdf'']\<rparr>)
   \<and> list_all status_valid (print_orders example_db)
   \<and> list_all status_valid
        [(example_order ''o1'' ''u1'' ''s1'' ''files/u1/a.pdf'')
             \<lparr>po_status := Some ''completed'', po_updated_at := Some 20\<rparr>,
           example_order ''o2'' ''u1'' ''s2'' ''files/u1/b.pdf'']"
proof -
  let ?upd = "update_print_orders (Some ''m1'') 20 (Some (\<lambda>r. po_id r = Some ''o1''))
             (no_values\<lparr>pv_status := Supplied (Some ''completed'')\<rparr>) example_db"
  let ?after = "example_db\<lparr>print_orders :=
          [(example_order ''o1'' ''u1'' ''s1'' ''files/u1/a.pdf'')
             \<lparr>po_status := Some ''completed'', po_updated_at := Some 20\<rparr>,
           example_order ''o2'' ''u1'' ''s2'' ''files/u1/b.pdf'']\<rparr>"
  have upd: "?upd = Inr ?after"
    by (simp add: example_defs policy_defs print_orders_statement_defs)
  have bad: "update_print_orders (Some ''m1'') 20 (Some (\<lambda>r. po_id r = Some ''o1''))
        (no_values\<lparr>pv_status := Supplied (Some ''shipped'')\<rparr>) example_db = Inl Check_violation"
    by (simp add: example_defs policy_defs print_orders_statement_defs)
  have valid: "list_all status_valid (print_orders example_db)"
    by (simp add: example_defs status_valid_def)
  have supplied: "pv_status ((order_values ''u1'' ''s1'')\<lparr>pv_status := Supplied (Some ''shipped'')\<rparr>)
      = Supplied (Some ''shipped'')"
    "Some ''shipped'' \<notin> set (map Some [''pending'', ''printing'', ''completed'', ''cancelled''])"
    by simp_all
  have store: "arg_int4 (Supplied (Some 2048))" "arg_int4 (Supplied (Some 2))"
    "Some ''o3'' \<notin> set (map po_id (print_orders example_db))"
    "Some ''u1'' \<in> set (map p_id (profiles example_db))"
    "Some ''s1'' \<in> set (map m_id (merchants example_db))"
    by (simp_all add: example_defs int4_def)
  show ?thesis
    using print_orders_status_constraint
        [where vals = "(order_values ''u1'' ''s1'')\<lparr>pv_status := Supplied (Some ''shipped'')\<rparr>"
          and v = "Some ''shipped''" and auth_uid = "Some ''u1''" and now = 10 and g = "''o3''"
          and d = example_db and wh = None and d' = example_db
          and fs = "Supplied (Some 2048)" and cp = "Supplied (Some 2)" and u = "''u1''"
          and mk = "''s1''" and fn = "''doc.pdf''" and fu = "''files/u1/c.pdf''"
          and nt = Omitted]
      print_orders_status_constraint
        [where vals = "no_values\<lparr>pv_status := Supplied (Some ''completed'')\<rparr>"
          and v = None and auth_uid = "Some ''m1''" and now = 20 and g = "''o3''"
          and d = example_db and wh = "Some (\<lambda>r. po_id r = Some ''o1'')" and d' = ?after
          and fs = Omitted and cp = Omitted and u = "''u1''"
          and mk = "''s1''" and fn = "''doc.pdf''" and fu = "''files/u1/c.pdf''"
          and nt = Omitted]
      upd bad valid supplied store
    by simp
qed

section \<open>The timestamp of the last update\<close>

lemma update_print_orders_row_updated_at:
  assumes "update_print_orders_row auth_uid now d wh vals old = Inr new"
  shows "if update_print_orders_reaches auth_uid d wh old
         then po_updated_at new = Some now else new = old"
  using assms
  by (auto simp: update_print_orders_row_def Let_def update_updated_at_column_def
      split: if_splits)

text \<open>
  C4, as the specification has it, lets \<open>updated_at\<close> grow strictly with every
  update. The trigger stores the time of the statement and compares nothing. An INSERT may
  supply \<open>updated_at\<close>: \<open>u1\<close> creates an order at time 10 with an
  \<open>updated_at\<close> of 500 and updates it at time 20, and \<open>updated_at\<close> goes from
  500 back to 20.
\<close>

theorem print_orders_updated_at_moves_back:
  "map po_updated_at (print_orders example_db_late) = [Some 3, Some 3, Some 500]
   \<and> map po_updated_at (print_orders (after example_db_late
        (update_print_orders (Some ''u1'') 20 (Some (\<lambda>r. po_id r = Some ''o3''))
           (no_values\<lparr>pv_status := Supplied (Some ''cancelled'')\<rparr>) example_db_late)))
      = [Some 3, Some 3, Some 20]
   \<and> \<not> (500 < (20 :: timestamptz))"
  by (simp add: example_db_late_def example_defs policy_defs print_orders_statement_defs)

text \<open>
  C4, amended. After an UPDATE, every Print Order row that the statement reached has the
  time of the statement as its \<open>updated_at\<close>, whatever the SET clause supplied, and
  every other row is as before. The new value is later than the old one when, and only
  when, the time of the statement is.
\<close>

theorem print_orders_updated_at_overwritten:
  assumes "update_print_orders auth_uid now wh vals d = Inr d'"
  shows "list_all2
           (\<lambda>old new. if update_print_orders_reaches auth_uid d wh old
                       then po_updated_at new = Some now else new = old)
           (print_orders d) (print_orders d')"
  using update_print_orders_rows [OF assms]
  by (rule list_all2_mono) (rule update_print_orders_row_updated_at)

theorem print_orders_updated_at_overwritten_witness:
  "update_print_orders (Some ''m1'') 20 (Some (\<lambda>r. po_id r = Some ''o1''))
      (no_values\<lparr>pv_status := Supplied (Some ''printing''),
                 pv_updated_at := Supplied (Some 7)\<rparr>) example_db
     = Inr (example_db\<lparr>print_orders :=
         [(example_order ''o1'' ''u1'' ''s1'' ''files/u1/a.pdf'')
            \<lparr>po_status := Some ''printing'', po_updated_at := Some 20\<rparr>,
          example_order ''o2'' ''u1'' ''s2'' ''files/u1/b.pdf'']\<rparr>)
   \<and> list_all2
        (\<lambda>old new. if update_print_orders_reaches (Some ''m1'') example_db
                         (Some (\<lambda>r. po_id r = Some ''o1'')) old
                    then po_updated_at new = Some 20 else new = old)
        (print_orders example_db)
        [(example_order ''o1'' ''u1'' ''s1'' ''files/u1/a.pdf'')
            \<lparr>po_status := Some ''printing'', po_updated_at := Some 20\<rparr>,
          example_order ''o2'' ''u1'' ''s2'' ''files/u1/b.pdf'']"
proof -
  have h: "update_print_orders (Some ''m1'') 20 (Some (\<lambda>r. po_id r = Some ''o1''))
      (no_values\<lparr>pv_status := Supplied (Some ''printing''),
                 pv_updated_at := Supplied (Some 7)\<rparr>) example_db
     = Inr (example_db\<lparr>print_orders :=
         [(example_order ''o1'' ''u1'' ''s1'' ''files/u1/a.pdf'')
            \<lparr>po_status := Some ''printing'', po_updated_at := Some 20\<rparr>,
          example_order ''o2'' ''u1'' ''s2'' ''files/u1/b.pdf'']\<rparr>)"
    by (simp add: example_defs policy_defs print_orders_statement_defs)
  show ?thesis using h print_orders_updated_at_overwritten [OF h] by simp
qed

section \<open>Provisioning a profile for a new identity\<close>

lemma handle_new_user_Inr:
  assumes "handle_new_user now new d = Inr d'"
  shows "\<exists>r. cast_app_role (jsonb_get_text (au_raw_user_meta_data new) ''role'') = Inr r
     \<and> d' = d\<lparr>profiles := profiles d @
          [\<lparr>p_id = Some (au_id new), p_email = au_email new,
            p_full_name = coalesce (jsonb_get_text (au_raw_user_meta_data new) ''full_name'') [],
            p_role = coalesce r Role_user, p_created_at = Some now\<rparr>]\<rparr>
     \<and> au_email new \<noteq> None
     \<and> Some (au_id new) \<notin> set (map p_id (profiles d))"
  using assms
  by (auto simp: handle_new_user_def Let_def profiles_not_null_def
      split: sum.splits if_splits)

lemma cast_app_role_Inr:
  "cast_app_role t = Inr r \<longleftrightarrow>
     (t = None \<and> r = None) \<or> (t = Some ''user'' \<and> r = Some Role_user)
     \<or> (t = Some ''merchant'' \<and> r = Some Role_merchant)"
  by (cases t) auto

text \<open>
  C3. When the creation of an identity succeeds, the identity is stored and exactly one
  Profile has its key: the one with the identity's email, the full name of the metadata
  or the empty string when there is none, and the role of the metadata or \<open>user\<close> when
  there is none. A role in the metadata that is neither \<open>user\<close> nor \<open>merchant\<close>
  makes the creation fail and leaves the store as it was, without the identity and without
  a Profile. The creation does succeed for a new key with an email and a valid or missing
  role, on a store whose profiles all belong to identities.
\<close>

theorem identity_creation_provisions_profile:
  "(insert_auth_users now new d = Inr d' \<longrightarrow>
      users d' = users d @ [new]
      \<and> filter (\<lambda>p. p_id p = Some (au_id new)) (profiles d')
          = [\<lparr>p_id = Some (au_id new), p_email = au_email new,
              p_full_name =
                (case jsonb_get_text (au_raw_user_meta_data new) ''full_name'' of
                   None \<Rightarrow> Some [] | Some n \<Rightarrow> Some n),
              p_role =
                (case jsonb_get_text (au_raw_user_meta_data new) ''role'' of
                   None \<Rightarrow> Some Role_user
                 | Some t \<Rightarrow> if t = ''merchant'' then Some Role_merchant else Some Role_user),
              p_created_at = Some now\<rparr>]
      \<and> au_email new \<noteq> None
      \<and> jsonb_get_text (au_raw_user_meta_data new) ''role''
          \<in> {None, Some ''user'', Some ''merchant''})
   \<and> (jsonb_get_text (au_raw_user_meta_data new) ''role''
          \<notin> {None, Some ''user'', Some ''merchant''} \<longrightarrow>
        isl (insert_auth_users now new d)
        \<and> after d (insert_auth_users now new d) = d)
   \<and> (profiles_reference_users d \<and> au_id new \<notin> set (map au_id (users d))
        \<and> au_email new \<noteq> None
        \<and> jsonb_get_text (au_raw_user_meta_data new) ''role''
            \<in> {None, Some ''user'', Some ''merchant''} \<longrightarrow>
        \<not> isl (insert_auth_users now new d))"
proof (intro conjI impI)
  assume ok: "insert_auth_users now new d = Inr d'"
  then have fresh: "au_id new \<notin> set (map au_id (users d))"
    and h: "handle_new_user now new (d\<lparr>users := users d @ [new]\<rparr>) = Inr d'"
    by (auto simp: insert_auth_users_def split: if_splits)
  from handle_new_user_Inr [OF h] obtain r where
    r: "cast_app_role (jsonb_get_text (au_raw_user_meta_data new) ''role'') = Inr r"
    and d': "d' = d\<lparr>users := users d @ [new], profiles := profiles d @
          [\<lparr>p_id = Some (au_id new), p_email = au_email new,
            p_full_name = coalesce (jsonb_get_text (au_raw_user_meta_data new) ''full_name'') [],
            p_role = coalesce r Role_user, p_created_at = Some now\<rparr>]\<rparr>"
    and email: "au_email new \<noteq> None"
    and none: "Some (au_id new) \<notin> set (map p_id (profiles d))"
    by auto
  show "users d' = users d @ [new]" by (simp add: d')
  show "au_email new \<noteq> None" by (rule email)
  show "jsonb_get_text (au_raw_user_meta_data new) ''role''
          \<in> {None, Some ''user'', Some ''merchant''}"
    using r by (auto simp: cast_app_role_Inr)
  have "filter (\<lambda>p. p_id p = Some (au_id new)) (profiles d) = []"
    using none by (force simp: filter_empty_conv)
  then show "filter (\<lambda>p. p_id p = Some (au_id new)) (profiles d')
          = [\<lparr>p_id = Some (au_id new), p_email = au_email new,
              p_full_name =
                (case jsonb_get_text (au_raw_user_meta_data new) ''full_name'' of
                   None \<Rightarrow> Some [] | Some n \<Rightarrow> Some n),
              p_role =
                (case jsonb_get_text (au_raw_user_meta_data new) ''role'' of
                   None \<Rightarrow> Some Role_user
                 | Some t \<Rightarrow> if t = ''merchant'' then Some Role_merchant else Some Role_user),
              p_created_at = Some now\<rparr>]"
    using r by (auto simp: d' cast_app_role_Inr split: option.splits)
next
  assume bad: "jsonb_get_text (au_raw_user_meta_data new) ''role''
          \<notin> {None, Some ''user'', Some ''merchant''}"
  then have "isl (cast_app_role (jsonb_get_text (au_raw_user_meta_data new) ''role''))"
    by (cases "jsonb_get_text (au_raw_user_meta_data new) ''role''") auto
  then have "isl (handle_new_user now new d0)" for d0
    by (auto simp: handle_new_user_def split: sum.splits)
  then show l: "isl (insert_auth_users now new d)"
    by (simp add: insert_auth_users_def)
  then show "after d (insert_auth_users now new d) = d"
    by (cases "insert_auth_users now new d") simp_all
next
  assume a: "profiles_reference_users d \<and> au_id new \<notin> set (map au_id (users d))
        \<and> au_email new \<noteq> None
        \<and> jsonb_get_text (au_raw_user_meta_data new) ''role''
            \<in> {None, Some ''user'', Some ''merchant''}"
  then have "Some (au_id new) \<notin> set (map p_id (profiles d))"
    by (auto simp: profiles_reference_users_def list_all_iff)
  moreover obtain r where
    "cast_app_role (jsonb_get_text (au_raw_user_meta_data new) ''role'') = Inr r"
    using a by auto
  ultimately show "\<not> isl (insert_auth_users now new d)"
    using a by (cases r) (auto simp: insert_auth_users_def handle_new_user_def Let_def
        profiles_not_null_def)
qed

theorem identity_creation_provisions_profile_witness:
  "filter (\<lambda>p. p_id p = Some ''u9'')
      (profiles (after example_db (insert_auth_users 5
         \<lparr>au_id = ''u9'', au_email = Some ''a@x.edu'',
          au_raw_user_meta_data =
            Some [(''full_name'', Json_text ''Ada''), (''role'', Json_text ''merchant'')]\<rparr>
         example_db)))
     = [\<lparr>p_id = Some ''u9'', p_email = Some ''a@x.edu'', p_full_name = Some ''Ada'',
         p_role = Some Role_merchant, p_created_at = Some 5\<rparr>]
   \<and> isl (insert_auth_users 5
         \<lparr>au_id = ''u9'', au_email = Some ''a@x.edu'',
          au_raw_user_meta_data = Some [(''role'', Json_text ''admin'')]\<rparr> example_db)
   \<and> profiles_reference_users example_db
   \<and> \<not> isl (insert_auth_users 5
         \<lparr>au_id = ''u8'', au_email = Some ''b@x.edu'', au_raw_user_meta_data = None\<rparr>
         example_db)"
proof -
  let ?new = "\<lparr>au_id = ''u9'', au_email = Some ''a@x.edu'',
          au_raw_user_meta_data =
            Some [(''full_name'', Json_text ''Ada''), (''role'', Json_text ''merchant'')]\<rparr>"
  let ?bad = "\<lparr>au_id = ''u9'', au_email = Some ''a@x.edu'',
          au_raw_user_meta_data = Some [(''role'', Json_text ''admin'')]\<rparr>"
  let ?plain = "\<lparr>au_id = ''u8'', au_email = Some ''b@x.edu'', au_raw_user_meta_data = None\<rparr>"
  have ok: "insert_auth_users 5 ?new example_db
      = Inr (after example_db (insert_auth_users 5 ?new example_db))"
    by (simp add: insert_auth_users_def handle_new_user_def profiles_not_null_def
        example_defs)
  have inv: "profiles_reference_users example_db"
    by (simp add: profiles_reference_users_def example_defs)
  have fresh: "au_id ?plain \<notin> set (map au_id (users example_db))"
    by (simp add: example_defs)
  show ?thesis
    using identity_creation_provisions_profile
        [of 5 ?new example_db "after example_db (insert_auth_users 5 ?new example_db)"]
      identity_creation_provisions_profile [of 5 ?bad example_db example_db]
      identity_creation_provisions_profile [of 5 ?plain example_db example_db]
      ok inv fresh
    by simp
qed

section \<open>Uploading and reading files\<close>

lemma split_slash_not_Nil: "split_slash s \<noteq> []"
  by (induction s) (auto split: list.splits)

lemma split_slash_prefix:
  "CHR ''/'' \<notin> set k \<Longrightarrow> split_slash (k @ CHR ''/'' # rest) = k # split_slash rest"
  by (induction k) auto

lemma split_slash_no_slash:
  "CHR ''/'' \<notin> set n \<Longrightarrow> split_slash n = [n]"
  by (induction n) auto

lemma foldername_key:
  assumes "CHR ''/'' \<notin> set k"
  shows "array_first (foldername (k @ CHR ''/'' # rest)) = Some k"
proof -
  obtain x xs where "split_slash rest = x # xs"
    using split_slash_not_Nil [of rest] by (cases "split_slash rest") auto
  then show ?thesis
    using assms by (simp add: foldername_def string_to_array_def split_slash_prefix)
qed

lemma foldername_no_folder:
  assumes "CHR ''/'' \<notin> set n"
  shows "array_first (foldername n) = None"
  using assms by (simp add: foldername_def string_to_array_def split_slash_no_slash)

lemma storage_object_key:
  "obj_bucket_id r = obj_bucket_id obj \<and> obj_name r = obj_name obj \<longleftrightarrow> r = (obj :: storage_object)"
  by (cases r; cases obj) auto

lemma select_objects_own_key:
  assumes "obj \<in> set (objects d)" and "obj_bucket_id obj = Some b" and "obj_name obj = Some n"
    and "users_can_view_their_own_files auth_uid obj"
  shows "select_objects auth_uid (Some (b, n)) d = Inr (filter (\<lambda>r. r = obj) (objects d))"
proof -
  have key: "key_selects (Some (b, n)) r \<longleftrightarrow> r = obj" for r
    using assms(2,3) storage_object_key [of r obj] by (auto simp: key_selects_def)
  have rows: "filter (key_selects (Some (b, n))) (objects d) = filter (\<lambda>r. r = obj) (objects d)"
    by (rule filter_cong) (simp_all add: key)
  have admitted: "objects_select_policy auth_uid d obj = Inr True"
    using assms(4) by (simp add: objects_select_policy_def)
  have "\<not> list_ex (\<lambda>r. isl (objects_select_policy auth_uid d r))
      (filter (\<lambda>r. r = obj) (objects d))"
    using admitted by (auto simp: list_ex_iff)
  moreover have "filter (\<lambda>r. objects_select_policy auth_uid d r = Inr True)
      (filter (\<lambda>r. r = obj) (objects d)) = filter (\<lambda>r. r = obj) (objects d)"
    using admitted by (auto intro: filter_cong)
  ultimately show ?thesis
    by (simp add: select_objects_def rows)
qed

lemma select_objects_Inr:
  assumes "select_objects auth_uid key d = Inr rows"
  shows "obj \<in> set rows \<longleftrightarrow>
     obj \<in> set (objects d) \<and> key_selects key obj
     \<and> objects_select_policy auth_uid d obj = Inr True"
  using assms by (auto simp: select_objects_def Let_def split: if_splits)

text \<open>
  C5. The first path segment of an object key is the first of its folders,
  \<open>(storage.foldername(name))[1]\<close>: for a key \<open><k>/<rest>\<close> it is \<open>k\<close>. An
  upload whose first path segment is not the actor's identity key is denied. An upload
  into \<open>print-files\<close> whose first path segment is the actor's identity key succeeds,
  and the same actor can read the object afterwards: the read of the object by its key
  returns it, and so does every read of the whole bucket that does not raise.
\<close>

theorem objects_upload_own_folder:
  "(\<not> sql_eq auth_uid (first_folder obj)
      \<longrightarrow> insert_objects auth_uid obj d = Inl Insufficient_privilege)
   \<and> (obj_bucket_id obj = Some ''print-files'' \<and> sql_eq auth_uid (first_folder obj)
      \<longrightarrow> insert_objects auth_uid obj d = Inr (d\<lparr>objects := objects d @ [obj]\<rparr>)
          \<and> (\<exists>n rows. obj_name obj = Some n
                \<and> select_objects auth_uid (Some (''print-files'', n))
                     (d\<lparr>objects := objects d @ [obj]\<rparr>) = Inr rows
                \<and> obj \<in> set rows)
          \<and> (\<forall>rows. select_objects auth_uid None (d\<lparr>objects := objects d @ [obj]\<rparr>) = Inr rows
                \<longrightarrow> obj \<in> set rows))
   \<and> (CHR ''/'' \<notin> set k
      \<longrightarrow> first_folder \<lparr>obj_bucket_id = b, obj_name = Some (k @ CHR ''/'' # rest)\<rparr> = Some k)"
proof (intro conjI impI allI)
  assume "\<not> sql_eq auth_uid (first_folder obj)"
  then show "insert_objects auth_uid obj d = Inl Insufficient_privilege"
    by (simp add: insert_objects_def users_can_upload_their_own_files_def)
next
  let ?d = "d\<lparr>objects := objects d @ [obj]\<rparr>"
  assume a: "obj_bucket_id obj = Some ''print-files'' \<and> sql_eq auth_uid (first_folder obj)"
  then have own: "users_can_view_their_own_files auth_uid obj"
    by (simp add: users_can_view_their_own_files_def)
  show "insert_objects auth_uid obj d = Inr ?d"
    using a by (simp add: insert_objects_def users_can_upload_their_own_files_def)
  obtain n where n: "obj_name obj = Some n"
    using a by (cases "obj_name obj") (auto simp: first_folder_def)
  have "select_objects auth_uid (Some (''print-files'', n)) ?d
      = Inr (filter (\<lambda>r. r = obj) (objects ?d))"
    using a n own by (intro select_objects_own_key) simp_all
  then show "\<exists>n rows. obj_name obj = Some n
      \<and> select_objects auth_uid (Some (''print-files'', n)) ?d = Inr rows \<and> obj \<in> set rows"
    using n by simp
  fix rows
  assume "select_objects auth_uid None ?d = Inr rows"
  then show "obj \<in> set rows"
    using own by (simp add: select_objects_Inr key_selects_def objects_select_policy_def)
next
  assume "CHR ''/'' \<notin> set k"
  then show "first_folder \<lparr>obj_bucket_id = b, obj_name = Some (k @ CHR ''/'' # rest)\<rparr> = Some k"
    by (simp add: first_folder_def foldername_key)
qed

theorem objects_upload_own_folder_witness:
  "insert_objects (Some ''u2'') (example_object ''u1/x.pdf'') example_db = Inl Insufficient_privilege
   \<and> insert_objects (Some ''u1'') (example_object ''u1/x.pdf'') example_db
      = Inr (example_db\<lparr>objects := objects example_db @ [example_object ''u1/x.pdf'']\<rparr>)
   \<and> select_objects (Some ''u1'') (Some (''print-files'', ''u1/x.pdf''))
        (example_db\<lparr>objects := objects example_db @ [example_object ''u1/x.pdf'']\<rparr>)
      = Inr [example_object ''u1/x.pdf'']
   \<and> first_folder (example_object ''u1/x.pdf'') = Some ''u1''"
proof -
  have k: "CHR ''/'' \<notin> set ''u1''" by simp
  have f: "first_folder \<lparr>obj_bucket_id = Some ''print-files'', obj_name = Some ''u1/x.pdf''\<rparr>
      = Some ''u1''"
    using objects_upload_own_folder [of "Some ''u1''" "example_object ''u1/x.pdf''" example_db
        "''u1''" "Some ''print-files''" "''x.pdf''"] k
    by simp
  have read: "select_objects (Some ''u1'') (Some (''print-files'', ''u1/x.pdf''))
        (example_db\<lparr>objects := objects example_db @ [example_object ''u1/x.pdf'']\<rparr>)
      = Inr [example_object ''u1/x.pdf'']"
    by (simp add: select_objects_def key_selects_def objects_select_policy_def
        users_can_view_their_own_files_def f example_defs)
  show ?thesis
    using objects_upload_own_folder [of "Some ''u2''" "example_object ''u1/x.pdf''" example_db
        "''u1''" "Some ''print-files''" "''x.pdf''"]
      objects_upload_own_folder [of "Some ''u1''" "example_object ''u1/x.pdf''" example_db
        "''u1''" "Some ''print-files''" "''x.pdf''"] f read
    by (simp add: example_object_def)
qed

text \<open>A key without a slash is a file name with no folder: nobody can upload it.\<close>

lemma objects_upload_without_folder_refused:
  assumes "CHR ''/'' \<notin> set n"
  shows "insert_objects auth_uid \<lparr>obj_bucket_id = b, obj_name = Some n\<rparr> d
     = Inl Insufficient_privilege"
  using assms
  by (simp add: insert_objects_def users_can_upload_their_own_files_def first_folder_def
      foldername_no_folder)

section \<open>LIKE\<close>

text \<open>A pattern without a backslash never raises.\<close>

lemma match_text_no_escape:
  "CHR 0x5C \<notin> set p \<Longrightarrow> \<not> isl (match_text t p)"
  "CHR 0x5C \<notin> set q \<Longrightarrow> \<not> isl (after_percent s q)"
  "CHR 0x5C \<notin> set r \<Longrightarrow> \<not> isl (scan_text f u r)"
proof (induction t p and s q and f u r rule: match_text_after_percent_scan_text.induct)
  case (1 p)
  show ?case by simp
next
  case (2 c t)
  show ?case by simp
next
  case (3 c t x ps)
  then have "x \<noteq> CHR 0x5C" "CHR 0x5C \<notin> set ps" by auto
  with 3 show ?case by simp
next
  case (4 t)
  show ?case by simp
next
  case (5 t y ys)
  then have "y \<noteq> CHR 0x5C" "CHR 0x5C \<notin> set ys" by auto
  with 5 show ?case by (cases t) simp_all
next
  case (6 firstpat p)
  show ?case by simp
next
  case (7 firstpat c t p)
  show ?case
  proof (cases "c = firstpat")
    case False
    then show ?thesis using 7 by simp
  next
    case True
    then obtain m where m: "match_text (c # t) p = Inr m"
      using 7(1) [OF True] 7(4) by (cases "match_text (c # t) p") auto
    show ?thesis
      using True m 7(2) [OF True m] 7(4) by (cases m) simp_all
  qed
qed

lemma sql_like_no_escape:
  "CHR 0x5C \<notin> set p \<Longrightarrow> \<not> isl (sql_like s p)"
  using match_text_no_escape(1) [of p s]
  by (auto simp: sql_like_def split: sum.splits)

lemma file_url_like_name_no_escape:
  assumes "\<forall>n. obj_name obj = Some n \<longrightarrow> CHR 0x5C \<notin> set n"
  shows "\<not> isl (file_url_like_name po obj)"
proof (cases "po_file_url po")
  case None
  then show ?thesis by (simp add: file_url_like_name_def)
next
  case (Some url)
  show ?thesis
  proof (cases "obj_name obj")
    case None
    then show ?thesis by (simp add: file_url_like_name_def Some)
  next
    case (Some n)
    then have "CHR 0x5C \<notin> set (CHR ''%'' # n)"
      using assms by simp
    then show ?thesis
      using sql_like_no_escape [of "CHR ''%'' # n" url]
      by (simp add: file_url_like_name_def Some \<open>po_file_url po = Some url\<close>)
  qed
qed

text \<open>
  For a name without \<open>%\<close>, \<open>_\<close> or backslash, \<open>url LIKE '%' || name\<close> says that
  the URL ends with the name.
\<close>

lemma match_text_literal:
  assumes "CHR ''%'' \<notin> set n" "CHR ''_'' \<notin> set n" "CHR 0x5C \<notin> set n"
  shows "match_text t n =
     Inr (if t = n then Like_true
          else if length t < length n \<and> take (length t) n = t then Like_abort
          else Like_false)"
  using assms
proof (induction n arbitrary: t)
  case Nil
  then show ?case by (cases t) auto
next
  case (Cons x ps)
  show ?case
  proof (cases t)
    case Nil
    then show ?thesis using Cons.prems by auto
  next
    case (Cons c t')
    then show ?thesis using Cons.IH [of t'] Cons.prems by auto
  qed
qed

lemma scan_text_literal:
  assumes "CHR ''%'' \<notin> set (f # n)" "CHR ''_'' \<notin> set (f # n)" "CHR 0x5C \<notin> set (f # n)"
  shows "\<exists>r. scan_text f t (f # n) = Inr r \<and> (r = Like_true \<longleftrightarrow> (\<exists>pre. t = pre @ f # n))"
proof (induction t)
  case Nil
  show ?case by simp
next
  case (Cons c t)
  note lit = match_text_literal [OF assms, of "c # t"]
  from Cons obtain r where r: "scan_text f t (f # n) = Inr r"
    "r = Like_true \<longleftrightarrow> (\<exists>pre. t = pre @ f # n)"
    by blast
  have later: "(\<exists>pre. c # t = pre @ f # n) \<longleftrightarrow> c # t = f # n \<or> (\<exists>pre. t = pre @ f # n)"
    by (auto simp: Cons_eq_append_conv)
  show ?case
  proof (cases "c = f")
    case False
    then show ?thesis using r later by auto
  next
    case True
    consider "c # t = f # n"
      | "c # t \<noteq> f # n" "length (c # t) < length (f # n) \<and> take (length (c # t)) (f # n) = c # t"
      | "c # t \<noteq> f # n" "\<not> (length (c # t) < length (f # n) \<and> take (length (c # t)) (f # n) = c # t)"
      by blast
    then show ?thesis
    proof cases
      case 1
      then show ?thesis using True lit by auto
    next
      case 2
      then have "match_text (c # t) (f # n) = Inr Like_abort"
        using lit by simp
      moreover have "\<not> (\<exists>pre. c # t = pre @ f # n)"
      proof
        assume "\<exists>pre. c # t = pre @ f # n"
        then obtain pre where "c # t = pre @ f # n" ..
        then have "length (c # t) = length pre + length (f # n)"
          by (metis length_append)
        then show False using 2(2) by simp
      qed
      ultimately show ?thesis using True by simp
    next
      case 3
      then have "match_text (c # t) (f # n) = Inr Like_false"
        using lit by simp
      then show ?thesis using True r later 3(1) by simp
    qed
  qed
qed

lemma sql_like_ends_with:
  assumes "CHR ''%'' \<notin> set n" "CHR ''_'' \<notin> set n" "CHR 0x5C \<notin> set n"
  shows "sql_like s (CHR ''%'' # n) = Inr (\<exists>pre. s = pre @ n)"
proof (cases n)
  case Nil
  then show ?thesis by (cases s) (simp_all add: sql_like_def)
next
  case (Cons f n')
  have drop: "dropWhile (\<lambda>x. x = CHR ''%'') (f # n') = f # n'"
    using assms(1) Cons by auto
  show ?thesis
  proof (cases s)
    case Nil
    then show ?thesis using Cons drop by (simp add: sql_like_def)
  next
    case s: (Cons c t)
    obtain r where "scan_text f (c # t) (f # n') = Inr r"
      "r = Like_true \<longleftrightarrow> (\<exists>pre. c # t = pre @ f # n')"
      using scan_text_literal [of f n' "c # t"] assms Cons by auto
    then show ?thesis
      using assms Cons s by (auto simp: sql_like_def)
  qed
qed

section \<open>Reading files\<close>

lemma merchants_files_policy_Inr:
  assumes "merchants_can_view_files_in_their_orders auth_uid d obj = Inr b"
  shows "b \<longleftrightarrow>
     sql_eq (obj_bucket_id obj) (Some ''print-files'')
     \<and> (\<exists>po\<in>set (print_orders d). \<exists>m\<in>set (merchants d). m_is_active m = Some True
           \<and> sql_eq (po_merchant_id po) (m_id m) \<and> sql_eq (m_user_id m) auth_uid
           \<and> file_url_like_name po obj = Inr True)"
  (is "b \<longleftrightarrow> ?B \<and> ?R")
proof -
  let ?join = "\<lambda>po m. sql_eq (po_merchant_id po) (m_id m) \<and> sql_eq (m_user_id m) auth_uid
                     \<and> file_url_like_name po obj = Inr True"
  have active: "m \<in> set (select_merchants auth_uid d) \<longleftrightarrow>
      m \<in> set (merchants d) \<and> m_is_active m = Some True" for m
    by (auto simp: select_merchants_def anyone_can_view_active_merchants_def sql_eq_iff)
  have visible: "po \<in> set (select_print_orders auth_uid d)"
    if "po \<in> set (print_orders d)" "m \<in> set (merchants d)" "m_is_active m = Some True"
      "?join po m" for po m
  proof -
    have "sql_eq (m_id m) (po_merchant_id po)"
      using that(4) by (cases "m_id m"; cases "po_merchant_id po") auto
    then have "print_orders_select_policy auth_uid d po"
      unfolding print_orders_policies(1) using that by blast
    then show ?thesis
      using that(1) by (simp add: select_print_orders_def)
  qed
  have sub: "(\<exists>po\<in>set (select_print_orders auth_uid d).
      \<exists>m\<in>set (select_merchants auth_uid d). ?join po m) \<longleftrightarrow> ?R"
  proof
    assume "\<exists>po\<in>set (select_print_orders auth_uid d).
        \<exists>m\<in>set (select_merchants auth_uid d). ?join po m"
    then obtain po m where "po \<in> set (select_print_orders auth_uid d)"
      "m \<in> set (select_merchants auth_uid d)" "?join po m"
      by blast
    then have "po \<in> set (print_orders d)" "m \<in> set (merchants d)" "m_is_active m = Some True"
      "?join po m"
      by (simp_all add: active select_print_orders_def)
    then show ?R by blast
  next
    assume ?R
    then obtain po m where pm: "po \<in> set (print_orders d)" "m \<in> set (merchants d)"
      "m_is_active m = Some True" "?join po m"
      by blast
    then have "po \<in> set (select_print_orders auth_uid d)"
      by (rule visible)
    moreover have "m \<in> set (select_merchants auth_uid d)"
      using pm by (simp add: active)
    ultimately show "\<exists>po\<in>set (select_print_orders auth_uid d).
        \<exists>m\<in>set (select_merchants auth_uid d). ?join po m"
      using pm(4) by blast
  qed
  show ?thesis
  proof (cases ?B)
    case False
    then show ?thesis
      using assms by (simp add: merchants_can_view_files_in_their_orders_def)
  next
    case True
    then have "b \<longleftrightarrow> (\<exists>po\<in>set (select_print_orders auth_uid d).
        \<exists>m\<in>set (select_merchants auth_uid d). ?join po m)"
      using assms
      by (auto simp: merchants_can_view_files_in_their_orders_def list_ex_iff
          split: if_splits)
    then show ?thesis
      using True sub by simp
  qed
qed

lemma objects_select_policy_Inr:
  assumes "objects_select_policy auth_uid d obj = Inr b"
  shows "b \<longleftrightarrow>
     sql_eq (obj_bucket_id obj) (Some ''print-files'')
     \<and> (sql_eq auth_uid (first_folder obj)
        \<or> (\<exists>po\<in>set (print_orders d). \<exists>m\<in>set (merchants d). m_is_active m = Some True
              \<and> sql_eq (po_merchant_id po) (m_id m) \<and> sql_eq (m_user_id m) auth_uid
              \<and> file_url_like_name po obj = Inr True))"
proof (cases "users_can_view_their_own_files auth_uid obj")
  case True
  then show ?thesis
    using assms by (auto simp: objects_select_policy_def users_can_view_their_own_files_def)
next
  case False
  then have "merchants_can_view_files_in_their_orders auth_uid d obj = Inr b"
    using assms by (simp add: objects_select_policy_def)
  from merchants_files_policy_Inr [OF this] show ?thesis
    using False by (auto simp: users_can_view_their_own_files_def)
qed

lemma objects_select_policy_no_escape:
  assumes "\<forall>n. obj_name obj = Some n \<longrightarrow> CHR 0x5C \<notin> set n"
  shows "\<not> isl (objects_select_policy auth_uid d obj)"
  using file_url_like_name_no_escape [OF assms]
  by (simp add: objects_select_policy_def merchants_can_view_files_in_their_orders_def
      list_ex_iff)

lemma spec_merchant_file_rule_iff:
  "spec_merchant_file_rule actor d obj \<longleftrightarrow>
     sql_eq (obj_bucket_id obj) (Some ''print-files'')
     \<and> (\<exists>po\<in>set (print_orders d). \<exists>m\<in>set (merchants d).
           sql_eq (po_merchant_id po) (m_id m) \<and> sql_eq (m_user_id m) actor
           \<and> file_url_like_name po obj = Inr True)"
  by (simp add: spec_merchant_file_rule_def list_ex_iff)

lemmas objects_defs = select_objects_def key_selects_def objects_select_policy_def
  users_can_view_their_own_files_def merchants_can_view_files_in_their_orders_def
  file_url_like_name_def sql_like_def first_folder_def foldername_def string_to_array_def

text \<open>
  C7, as the specification has it, ties a merchant owner's read of an object to an order of
  the owner's shop that references the object, in both directions. The SELECT policies of
  the bucket are joined by OR, so the owner \<open>m1\<close> also reads \<open>m1/own.pdf\<close> in
  the owner's own folder, which no order references. In the other direction the
  sub-select sees only the Merchant rows the requester can read: the owner \<open>m2\<close> of
  the shop \<open>s2\<close>, which is not active, cannot read the file of the order sent to
  \<open>s2\<close>.
\<close>

theorem objects_read_by_merchant_owner_differs:
  "list_ex (\<lambda>m. sql_eq (m_user_id m) (Some ''m1'')) (merchants example_db)
   \<and> select_objects (Some ''m1'') (Some (''print-files'', ''m1/own.pdf'')) example_db
      = Inr [example_object ''m1/own.pdf'']
   \<and> \<not> spec_merchant_file_rule (Some ''m1'') example_db (example_object ''m1/own.pdf'')
   \<and> list_ex (\<lambda>m. sql_eq (m_user_id m) (Some ''m2'')) (merchants example_db)
   \<and> spec_merchant_file_rule (Some ''m2'') example_db (example_object ''u1/b.pdf'')
   \<and> select_objects (Some ''m2'') (Some (''print-files'', ''u1/b.pdf'')) example_db = Inr []"
  by (simp add: example_defs policy_defs spec_merchant_file_rule_def objects_defs)

text \<open>
  A read raises when the LIKE of the second policy comes to a backslash at the end of an
  object name: once \<open>u1\<close> has uploaded an object with such a name, the read of the
  whole bucket by \<open>m1\<close> raises, and the read of \<open>u1/a.pdf\<close> by its key does not.
\<close>

lemma objects_read_raises_on_open_escape:
  "insert_objects (Some ''u1'') (example_object (''u1/'' @ [CHR 0x5C])) example_db
     = Inr (example_db\<lparr>objects := objects example_db @ [example_object (''u1/'' @ [CHR 0x5C])]\<rparr>)
   \<and> select_objects (Some ''m1'') None
        (example_db\<lparr>objects := objects example_db @ [example_object (''u1/'' @ [CHR 0x5C])]\<rparr>)
      = Inl Invalid_escape_sequence
   \<and> select_objects (Some ''m1'') (Some (''print-files'', ''u1/a.pdf''))
        (example_db\<lparr>objects := objects example_db @ [example_object (''u1/'' @ [CHR 0x5C])]\<rparr>)
      = Inr [example_object ''u1/a.pdf'']"
  by (simp add: example_defs policy_defs objects_defs insert_objects_def
      users_can_upload_their_own_files_def)

text \<open>
  C7, amended. In a read of the bucket \<open>print-files\<close> that does not raise, an actor gets
  an object that the read asks for when the first folder of its key is the actor's
  identity key, and when there are a Print Order and an active Merchant such that the
  order's merchant key is the Merchant's id, the Merchant's owner key is the actor's key
  and the order's \<open>file_url\<close> matches \<open>'%' || name\<close>; the actor does not get an
  object whose first folder is not the actor's key and for which no Print Order and
  Merchant stand in that relation. A read raises only through the LIKE: it does not raise
  when no object that it asks for has a backslash in its name.
\<close>

theorem objects_read_rule:
  "(select_objects auth_uid key d = Inr rows \<longrightarrow>
      (obj \<in> set (objects d) \<and> key_selects key obj
         \<and> obj_bucket_id obj = Some ''print-files''
         \<and> (sql_eq auth_uid (first_folder obj)
            \<or> (\<exists>po\<in>set (print_orders d). \<exists>m\<in>set (merchants d). m_is_active m = Some True
                  \<and> sql_eq (po_merchant_id po) (m_id m) \<and> sql_eq (m_user_id m) auth_uid
                  \<and> file_url_like_name po obj = Inr True))
        \<longrightarrow> obj \<in> set rows)
      \<and> (\<not> sql_eq auth_uid (first_folder obj) \<and> \<not> spec_merchant_file_rule auth_uid d obj
        \<longrightarrow> obj \<notin> set rows))
   \<and> ((\<forall>r\<in>set (objects d). key_selects key r \<longrightarrow>
          (\<forall>n. obj_name r = Some n \<longrightarrow> CHR 0x5C \<notin> set n))
      \<longrightarrow> \<not> isl (select_objects auth_uid key d))"
proof (intro conjI impI)
  assume ok: "select_objects auth_uid key d = Inr rows"
  have row: "\<not> isl (objects_select_policy auth_uid d r)"
    if "r \<in> set (objects d)" "key_selects key r" for r
    using ok that by (auto simp: select_objects_def Let_def list_ex_iff split: if_splits)
  {
    assume g: "obj \<in> set (objects d) \<and> key_selects key obj
         \<and> obj_bucket_id obj = Some ''print-files''
         \<and> (sql_eq auth_uid (first_folder obj)
            \<or> (\<exists>po\<in>set (print_orders d). \<exists>m\<in>set (merchants d). m_is_active m = Some True
                  \<and> sql_eq (po_merchant_id po) (m_id m) \<and> sql_eq (m_user_id m) auth_uid
                  \<and> file_url_like_name po obj = Inr True))"
    then obtain b where b: "objects_select_policy auth_uid d obj = Inr b"
      using row [of obj] by (cases "objects_select_policy auth_uid d obj") auto
    have "b"
      unfolding objects_select_policy_Inr [OF b] using g by simp
    then show "obj \<in> set rows"
      using g b by (simp add: select_objects_Inr [OF ok])
  }
  {
    assume n: "\<not> sql_eq auth_uid (first_folder obj) \<and> \<not> spec_merchant_file_rule auth_uid d obj"
    show "obj \<notin> set rows"
    proof
      assume "obj \<in> set rows"
      then have "objects_select_policy auth_uid d obj = Inr True"
        by (simp add: select_objects_Inr [OF ok])
      from objects_select_policy_Inr [OF this] show False
        using n unfolding spec_merchant_file_rule_iff by blast
    qed
  }
next
  assume "\<forall>r\<in>set (objects d). key_selects key r \<longrightarrow>
          (\<forall>n. obj_name r = Some n \<longrightarrow> CHR 0x5C \<notin> set n)"
  then have "\<not> isl (objects_select_policy auth_uid d r)"
    if "r \<in> set (objects d)" "key_selects key r" for r
    using that objects_select_policy_no_escape [of r auth_uid d] by blast
  then show "\<not> isl (select_objects auth_uid key d)"
    by (auto simp: select_objects_def Let_def list_ex_iff)
qed

theorem objects_read_rule_witness:
  "select_objects (Some ''m1'') None example_db
     = Inr [example_object ''u1/a.pdf'', example_object ''m1/own.pdf'']
   \<and> example_object ''u1/a.pdf'' \<in> set [example_object ''u1/a.pdf'', example_object ''m1/own.pdf'']
   \<and> select_objects (Some ''u2'') None example_db = Inr []
   \<and> \<not> spec_merchant_file_rule (Some ''u2'') example_db (example_object ''u1/a.pdf'')
   \<and> \<not> isl (select_objects (Some ''m1'') None example_db)"
proof -
  let ?a = "example_object ''u1/a.pdf''"
  have m1: "select_objects (Some ''m1'') None example_db
      = Inr [example_object ''u1/a.pdf'', example_object ''m1/own.pdf'']"
    by (simp add: example_defs policy_defs objects_defs)
  have u2: "select_objects (Some ''u2'') None example_db = Inr []"
    by (simp add: example_defs policy_defs objects_defs)
  have stored: "?a \<in> set (objects example_db)" "obj_bucket_id ?a = Some ''print-files''"
    "key_selects None ?a"
    by (simp_all add: example_defs key_selects_def)
  have order: "\<exists>po\<in>set (print_orders example_db). \<exists>m\<in>set (merchants example_db).
      m_is_active m = Some True \<and> sql_eq (po_merchant_id po) (m_id m)
      \<and> sql_eq (m_user_id m) (Some ''m1'') \<and> file_url_like_name po ?a = Inr True"
    by (simp add: example_defs file_url_like_name_def sql_like_def)
  have stranger: "\<not> sql_eq (Some ''u2'') (first_folder ?a)"
    "\<not> spec_merchant_file_rule (Some ''u2'') example_db ?a"
    by (simp_all add: spec_merchant_file_rule_def example_defs first_folder_def foldername_def
        string_to_array_def)
  have names: "\<forall>r\<in>set (objects example_db). key_selects None r \<longrightarrow>
      (\<forall>n. obj_name r = Some n \<longrightarrow> CHR 0x5C \<notin> set n)"
    by (simp add: example_defs)
  show ?thesis
    using objects_read_rule [of "Some ''m1''" None example_db
        "[example_object ''u1/a.pdf'', example_object ''m1/own.pdf'']" ?a]
      objects_read_rule [of "Some ''u2''" None example_db "[]" ?a]
      m1 u2 stored order stranger names
    by simp
qed

end
